theory Spec2Isabelle
  imports Complex_Main
begin

section \<open>Strings\<close>

text \<open>
  A Python \<open>str\<close> is modelled as a \<open>string\<close> whose characters are the code points
  below 256 (Latin-1), so \<open>length\<close> is Python's \<open>len\<close>.  The predicates below are
  Python's \<open>str.isspace\<close>, the regular-expression classes \<open>\s\<close>, \<open>\d\<close> and \<open>\w\<close>,
  and \<open>str.lower\<close>, each restricted to that range.
\<close>

definition isspace :: "char \<Rightarrow> bool" where
  "isspace c = (of_char c \<in> {9, 10, 11, 12, 13, 28, 29, 30, 31, 32, 133, 160 :: nat})"

definition isdigit :: "char \<Rightarrow> bool" where
  "isdigit c = (48 \<le> (of_char c :: nat) \<and> (of_char c :: nat) \<le> 57)"

definition is_ascii_alpha :: "char \<Rightarrow> bool" where
  "is_ascii_alpha c = (let n = (of_char c :: nat) in (65 \<le> n \<and> n \<le> 90) \<or> (97 \<le> n \<and> n \<le> 122))"

definition is_word_char :: "char \<Rightarrow> bool" where
  "is_word_char c = (let n = (of_char c :: nat) in
     is_ascii_alpha c \<or> isdigit c \<or> n = 95 \<or>
     n \<in> {170, 178, 179, 181, 185, 186, 188, 189, 190} \<or>
     (192 \<le> n \<and> n \<noteq> 215 \<and> n \<noteq> 247))"

definition lower_char :: "char \<Rightarrow> char" where
  "lower_char c = (let n = (of_char c :: nat) in
     if (65 \<le> n \<and> n \<le> 90) \<or> (192 \<le> n \<and> n \<le> 222 \<and> n \<noteq> 215)
     then char_of (n + 32) else c)"

definition lower :: "string \<Rightarrow> string" where
  "lower s = map lower_char s"

definition lstrip :: "string \<Rightarrow> string" where
  "lstrip s = dropWhile isspace s"

definition rstrip :: "string \<Rightarrow> string" where
  "rstrip s = rev (dropWhile isspace (rev s))"

definition strip :: "string \<Rightarrow> string" where
  "strip s = rstrip (lstrip s)"

definition startswith :: "string \<Rightarrow> string \<Rightarrow> bool" where
  "startswith s p = (take (length p) s = p)"

text \<open>\<open>str.split()\<close> with no argument: the maximal runs of non-space characters.\<close>

function split_ws :: "string \<Rightarrow> string list" where
  "split_ws s =
     (case dropWhile isspace s of
        [] \<Rightarrow> []
      | c # cs \<Rightarrow> takeWhile (\<lambda>x. \<not> isspace x) (c # cs)
                 # split_ws (dropWhile (\<lambda>x. \<not> isspace x) (c # cs)))"
  by pat_completeness auto
termination
proof (relation "measure length")
  show "wf (measure length)" by simp
next
  fix s :: string and c cs
  assume h: "dropWhile isspace s = c # cs"
  then have nsp: "\<not> isspace c" using hd_dropWhile [of isspace s] by auto
  have "length (dropWhile (\<lambda>x. \<not> isspace x) (c # cs)) \<le> length cs"
    using nsp by (simp add: length_dropWhile_le)
  also have "length cs < length (dropWhile isspace s)" using h by simp
  also have "\<dots> \<le> length s" by (rule length_dropWhile_le)
  finally show "(dropWhile (\<lambda>x. \<not> isspace x) (c # cs), s) \<in> measure length" by simp
qed

declare split_ws.simps [simp del]

text \<open>\<open>re.sub(r'\s+', ' ', s)\<close>: every maximal run of white space becomes one blank.\<close>

function sub_spaces :: "string \<Rightarrow> string" where
  "sub_spaces [] = []"
| "sub_spaces (c # cs) =
     (if isspace c then CHR '' '' # sub_spaces (dropWhile isspace cs)
      else c # sub_spaces cs)"
  by pat_completeness auto
termination
  by (relation "measure length") (auto simp: length_dropWhile_le less_Suc_eq_le)

section \<open>ContentExtractor.clean\_text\<close>

text \<open>
  The four \<open>skip_patterns\<close>, each tried with \<open>re.match(pattern, text, re.IGNORECASE)\<close>,
  i.e. anchored at the start of the text.  \<open>imatch_prefix t w\<close> is the case-insensitive
  match of the literal \<open>w\<close> (given in lower case) at the start of \<open>t\<close>.
\<close>

definition imatch_prefix :: "string \<Rightarrow> string \<Rightarrow> bool" where
  "imatch_prefix t w = (length w \<le> length t \<and> lower (take (length w) t) = w)"

text \<open>\<open>^(skip to|jump to|go to)\s+\w+\<close>\<close>

definition after_goto :: "string \<Rightarrow> bool" where
  "after_goto r = (case r of
       [] \<Rightarrow> False
     | c # cs \<Rightarrow> isspace c \<and>
         (case dropWhile isspace cs of [] \<Rightarrow> False | d # _ \<Rightarrow> is_word_char d))"

definition pat_skip_to :: "string \<Rightarrow> bool" where
  "pat_skip_to t =
     (\<exists>w \<in> set [''skip to'', ''jump to'', ''go to''].
        imatch_prefix t w \<and> after_goto (drop (length w) t))"

text \<open>\<open>^(home|about|contact|privacy|terms)\s*$\<close>\<close>

definition pat_nav_word :: "string \<Rightarrow> bool" where
  "pat_nav_word t =
     (\<exists>w \<in> set [''home'', ''about'', ''contact'', ''privacy'', ''terms''].
        imatch_prefix t w \<and> dropWhile isspace (drop (length w) t) = [])"

text \<open>\<open>^\s*(\<copyright>|copyright)\s*\d{4}\<close>, the sign being code point 169\<close>

definition four_digits :: "string \<Rightarrow> bool" where
  "four_digits r = (4 \<le> length r \<and> (\<forall>c \<in> set (take 4 r). isdigit c))"

definition pat_copyright :: "string \<Rightarrow> bool" where
  "pat_copyright t =
     (let r = dropWhile isspace t in
      \<exists>w \<in> set [[CHR 0xA9], ''copyright''].
        imatch_prefix r w \<and> four_digits (dropWhile isspace (drop (length w) r)))"

text \<open>\<open>^(follow us|connect with us)\<close>\<close>

definition pat_follow :: "string \<Rightarrow> bool" where
  "pat_follow t = (\<exists>w \<in> set [''follow us'', ''connect with us'']. imatch_prefix t w)"

definition skip_patterns :: "(string \<Rightarrow> bool) list" where
  "skip_patterns = [pat_skip_to, pat_nav_word, pat_copyright, pat_follow]"

definition clean_text :: "string \<Rightarrow> string" where
  "clean_text text =
     (if text = [] then []
      else let t = sub_spaces (strip text) in
           if \<exists>p \<in> set skip_patterns. p t then [] else t)"

section \<open>The parse tree\<close>

text \<open>
  The scrapers read a page through BeautifulSoup.  Its parse tree is modelled as a
  datatype: a string, a comment, or an element with its tag name (in lower case, as the
  parser delivers it), its attributes and its children.  The \<open>BeautifulSoup\<close> object
  itself is the element at the root.  A string carries the class the parser gave it:
  \<open>NavigableString\<close> in general, \<open>CData\<close>, or the class of the innermost \<open>script\<close>,
  \<open>style\<close>, \<open>template\<close>, \<open>rt\<close> or \<open>rp\<close> element around it; \<open>Declaration\<close> stands for
  declarations, doctypes and processing instructions.  The functions below are the tree
  operations the scrapers call, on descendants in document order.
\<close>

datatype string_kind =
    NavigableString
  | CData
  | Script
  | Stylesheet
  | TemplateString
  | RubyTextString
  | RubyParenthesisString
  | Declaration

datatype node =
    Text string_kind string
  | Comment string
  | Element string "(string \<times> string) list" "node list"

fun descendants :: "node \<Rightarrow> node list" where
  "descendants (Element t a cs) = concat (map (\<lambda>c. c # descendants c) cs)"
| "descendants (Text k s) = []"
| "descendants (Comment s) = []"

fun has_tag :: "string list \<Rightarrow> node \<Rightarrow> bool" where
  "has_tag names (Element t a cs) = (t \<in> set names)"
| "has_tag names (Text k s) = False"
| "has_tag names (Comment s) = False"

fun is_comment :: "node \<Rightarrow> bool" where
  "is_comment (Comment s) = True"
| "is_comment (Text k s) = False"
| "is_comment (Element t a cs) = False"

fun tag_name :: "node \<Rightarrow> string" where
  "tag_name (Element t a cs) = t"
| "tag_name (Text k s) = []"
| "tag_name (Comment s) = []"

fun attrs :: "node \<Rightarrow> (string \<times> string) list" where
  "attrs (Element t a cs) = a"
| "attrs (Text k s) = []"
| "attrs (Comment s) = []"

definition find_all :: "string list \<Rightarrow> node \<Rightarrow> node list" where
  "find_all names n = filter (has_tag names) (descendants n)"

definition find_first :: "string \<Rightarrow> node \<Rightarrow> node option" where
  "find_first name n = (case find_all [name] n of [] \<Rightarrow> None | x # _ \<Rightarrow> Some x)"

text \<open>
  \<open>get_text()\<close> of an element concatenates the strings below it whose class is among the
  interesting string types of the element: \<open>NavigableString\<close> and \<open>CData\<close>, except that a
  \<open>script\<close>, \<open>style\<close>, \<open>template\<close>, \<open>rt\<close> or \<open>rp\<close> element reads the strings of its own
  class.  So the text of a paragraph leaves out a script inside it, and comments.
\<close>

definition string_containers :: "string \<Rightarrow> string_kind option" where
  "string_containers name =
     (if name = ''rt'' then Some RubyTextString
      else if name = ''rp'' then Some RubyParenthesisString
      else if name = ''style'' then Some Stylesheet
      else if name = ''script'' then Some Script
      else if name = ''template'' then Some TemplateString
      else None)"

definition interesting_string_types :: "string \<Rightarrow> string_kind list" where
  "interesting_string_types name =
     (case string_containers name of
        Some k \<Rightarrow> [k]
      | None \<Rightarrow> [NavigableString, CData])"

fun all_strings :: "string_kind list \<Rightarrow> node \<Rightarrow> string" where
  "all_strings types (Text k s) = (if k \<in> set types then s else [])"
| "all_strings types (Comment s) = []"
| "all_strings types (Element t a cs) = concat (map (all_strings types) cs)"

definition get_text :: "node \<Rightarrow> string" where
  "get_text n = all_strings (interesting_string_types (tag_name n)) n"

text \<open>
  \<open>for element in soup([...]): element.decompose()\<close> takes every element with one of the
  tags out of the tree, with all that is below it.
\<close>

fun decompose_all :: "string list \<Rightarrow> node \<Rightarrow> node" where
  "decompose_all names (Element t a cs) =
     Element t a (map (decompose_all names) (filter (\<lambda>c. \<not> has_tag names c) cs))"
| "decompose_all names (Text k s) = Text k s"
| "decompose_all names (Comment s) = Comment s"

fun extract_comments :: "node \<Rightarrow> node" where
  "extract_comments (Element t a cs) =
     Element t a (map extract_comments (filter (\<lambda>c. \<not> is_comment c) cs))"
| "extract_comments (Text k s) = Text k s"
| "extract_comments (Comment s) = Comment s"

text \<open>
  \<open>select_one\<close> for the three selector forms the extractor uses: a tag name, \<open>.class\<close>
  (the class attribute, split at white space, holds the name) and \<open>#id\<close>.
\<close>

datatype selector = ByTag string | ByClass string | ById string

fun matches :: "selector \<Rightarrow> node \<Rightarrow> bool" where
  "matches (ByTag t) n = has_tag [t] n"
| "matches (ByClass c) n =
     (case map_of (attrs n) ''class'' of None \<Rightarrow> False | Some v \<Rightarrow> c \<in> set (split_ws v))"
| "matches (ById i) n = (map_of (attrs n) ''id'' = Some i)"

definition select_one :: "selector \<Rightarrow> node \<Rightarrow> node option" where
  "select_one sel n = (case filter (matches sel) (descendants n) of [] \<Rightarrow> None | x # _ \<Rightarrow> Some x)"

section \<open>ContentExtractor.extract\_main\_content\<close>

record heading =
  level :: nat
  heading_text :: string
  heading_tag :: string

record html_list =
  list_type :: string
  items :: "string list"

record content =
  title :: string
  headings :: "heading list"
  paragraphs :: "string list"
  lists :: "html_list list"
  tables :: "string list list list"
  main_content :: string

definition join :: "string \<Rightarrow> string list \<Rightarrow> string" where
  "join sep xs = (case xs of [] \<Rightarrow> [] | y # ys \<Rightarrow> y @ concat (map (\<lambda>z. sep @ z) ys))"

definition extract_title :: "node \<Rightarrow> string" where
  "extract_title soup =
     (let t = (case find_first ''title'' soup of
                 Some title_tag \<Rightarrow> clean_text (get_text title_tag)
               | None \<Rightarrow> [])
      in if t = [] then
           (case find_first ''h1'' soup of
              Some h1 \<Rightarrow> clean_text (get_text h1)
            | None \<Rightarrow> t)
         else t)"

text \<open>The tree as it is after the two removal loops; all later steps read this tree.\<close>

definition pruned :: "node \<Rightarrow> node" where
  "pruned soup =
     extract_comments
       (decompose_all [''script'', ''style'', ''nav'', ''footer'', ''header''] soup)"

definition headings_of_level :: "node \<Rightarrow> nat \<Rightarrow> heading list" where
  "headings_of_level soup k =
     (let lv = [CHR ''h'', char_of (48 + k)] in
      map (\<lambda>t. \<lparr>level = k, heading_text = t, heading_tag = lv\<rparr>)
        (filter (\<lambda>t. t \<noteq> [] \<and> 2 \<le> length (split_ws t))
           (map (\<lambda>h. clean_text (get_text h)) (find_all [lv] soup))))"

definition extract_headings :: "node \<Rightarrow> heading list" where
  "extract_headings soup = concat (map (headings_of_level soup) [1, 2, 3, 4, 5, 6])"

definition extract_paragraphs :: "node \<Rightarrow> string list" where
  "extract_paragraphs soup =
     filter (\<lambda>t. t \<noteq> [] \<and> 30 < length t \<and> 5 \<le> length (split_ws t))
       (map (\<lambda>p. clean_text (get_text p)) (find_all [''p''] soup))"

definition extract_lists :: "node \<Rightarrow> html_list list" where
  "extract_lists soup =
     concat (map (\<lambda>ul.
         let list_items = filter (\<lambda>t. t \<noteq> [])
               (map (\<lambda>li. clean_text (get_text li)) (find_all [''li''] ul))
         in if list_items \<noteq> [] then [\<lparr>list_type = tag_name ul, items = list_items\<rparr>] else [])
       (find_all [''ul'', ''ol''] soup))"

definition extract_tables :: "node \<Rightarrow> string list list list" where
  "extract_tables soup =
     concat (map (\<lambda>table.
         let rows = filter (\<lambda>cells. cells \<noteq> [])
               (map (\<lambda>tr. map (\<lambda>cell. clean_text (get_text cell)) (find_all [''td'', ''th''] tr))
                  (find_all [''tr''] table))
         in if rows \<noteq> [] then [rows] else [])
       (find_all [''table''] soup))"

definition main_selectors :: "selector list" where
  "main_selectors = [ByTag ''main'', ByTag ''article'', ByClass ''content'',
     ByClass ''main-content'', ById ''content'', ById ''main'']"

fun first_selected :: "selector list \<Rightarrow> node \<Rightarrow> string" where
  "first_selected [] soup = []"
| "first_selected (sel # sels) soup =
     (case select_one sel soup of
        Some main_elem \<Rightarrow> clean_text (get_text main_elem)
      | None \<Rightarrow> first_selected sels soup)"

definition extract_main_content :: "node \<Rightarrow> content \<times> node" where
  "extract_main_content soup0 =
     (let ttl = extract_title soup0;
          soup = pruned soup0;
          hs = extract_headings soup;
          ps = extract_paragraphs soup;
          ls = extract_lists soup;
          ts = extract_tables soup;
          mc = first_selected main_selectors soup;
          mc = (if mc = [] then join '' '' (take 5 ps) else mc)
      in (\<lparr>title = ttl, headings = hs, paragraphs = ps, lists = ls, tables = ts,
           main_content = mc\<rparr>, soup))"

section \<open>EnhancedWebScraper.\_calculate\_quality\_score\<close>

text \<open>
  The score is a Python float, an IEEE binary64 number.  Such a number is a rational, and
  the model computes with the rationals that the floats are: \<open>fround\<close> rounds a rational
  to the nearest number with a 53-bit significand, ties to the even significand, which is
  what a decimal literal, the sum of two floats and the quotient of two integers are
  rounded with.  (Overflow and subnormal numbers are left out: the numbers here are sums
  of a few constants and quotients of string lengths.)  \<open>bit_length\<close> is the number of
  binary digits of a positive integer.
\<close>

function bit_length :: "int \<Rightarrow> int" where
  "bit_length n = (if n \<le> 0 then 0 else 1 + bit_length (n div 2))"
  by pat_completeness auto
termination
  by (relation "measure nat") auto

declare bit_length.simps [simp del]

definition round_half_even :: "rat \<Rightarrow> int" where
  "round_half_even x =
     (let f = \<lfloor>x\<rfloor>; d = x - of_int f in
      if d < 1 / 2 then f
      else if 1 / 2 < d then f + 1
      else if even f then f else f + 1)"

text \<open>The exponent \<open>e\<close> of a positive rational: \<open>2 ^ e \<le> x < 2 ^ (e + 1)\<close>.\<close>

definition binade :: "rat \<Rightarrow> int" where
  "binade x =
     (let (p, q) = quotient_of x;
          e = bit_length p - bit_length q
      in if 2 powi e \<le> x then e else e - 1)"

definition fround :: "rat \<Rightarrow> rat" where
  "fround x =
     (if x = 0 then 0
      else let a = \<bar>x\<bar>;
               e = binade a;
               m = round_half_even (a * 2 powi (52 - e))
           in sgn x * of_int m * 2 powi (e - 52))"

definition fadd :: "rat \<Rightarrow> rat \<Rightarrow> rat" where
  "fadd a b = fround (a + b)"

text \<open>\<open>a / b\<close> for two integers, here two lengths, with \<open>b\<close> positive.\<close>

definition true_divide :: "nat \<Rightarrow> nat \<Rightarrow> rat" where
  "true_divide a b = fround (of_nat a / of_nat b)"

definition calculate_quality_score :: "content \<Rightarrow> nat \<Rightarrow> rat" where
  "calculate_quality_score c html_length =
     (let score = 0;
          score = (if title c \<noteq> [] \<and> 10 < length (title c)
                   then fadd score (fround (2 / 10)) else score);
          text_length = length (main_content c);
          score = (if 500 < text_length then fadd score (fround (3 / 10))
                   else if 200 < text_length then fadd score (fround (2 / 10))
                   else if 100 < text_length then fadd score (fround (1 / 10))
                   else score);
          score = (if headings c \<noteq> [] then fadd score (fround (2 / 10)) else score);
          score = (if paragraphs c \<noteq> [] then fadd score (fround (2 / 10)) else score);
          score = (if 3 < length (paragraphs c) then fadd score (fround (1 / 10)) else score);
          score = (if 0 < html_length then
                     (let ratio = true_divide text_length html_length in
                      if fround (1 / 10) < ratio then fadd score (fround (1 / 10))
                      else if fround (5 / 100) < ratio then fadd score (fround (5 / 100))
                      else score)
                   else score)
      in min 1 score)"

section \<open>URLs: urllib.parse\<close>

text \<open>
  \<open>URLProcessor.normalize_url\<close> goes through \<open>urlparse\<close> and \<open>urlunparse\<close> of Python's
  standard library.  They are modelled here after \<open>urllib/parse.py\<close> (CPython 3.11): the
  scheme is split at the first colon, the network location after \<open>//\<close>, then fragment,
  query and parameters.  A \<open>ValueError\<close> of the parser is the value \<open>None\<close>.  The check of
  a bracketed host (an IPv6 literal) is left to the parameter \<open>bracket_ok\<close>.  On code points
  below 256 the NFKC check of the network location never raises.
\<close>

record parse_result =
  scheme :: string
  netloc :: string
  path :: string
  params :: string
  query :: string
  fragment :: string

definition uses_netloc :: "string list" where
  "uses_netloc = [[], ''ftp'', ''http'', ''gopher'', ''nntp'', ''telnet'',
     ''imap'', ''wais'', ''file'', ''mms'', ''https'', ''shttp'',
     ''snews'', ''prospero'', ''rtsp'', ''rtsps'', ''rtspu'', ''rsync'',
     ''svn'', ''svn+ssh'', ''sftp'', ''nfs'', ''git'', ''git+ssh'',
     ''ws'', ''wss'']"

definition uses_params :: "string list" where
  "uses_params = [[], ''ftp'', ''hdl'', ''prospero'', ''http'', ''imap'',
     ''https'', ''shttp'', ''rtsp'', ''rtsps'', ''rtspu'', ''sip'',
     ''sips'', ''mms'', ''sftp'', ''tel'']"

definition is_scheme_char :: "char \<Rightarrow> bool" where
  "is_scheme_char c = (is_ascii_alpha c \<or> isdigit c \<or> c \<in> {CHR ''+'', CHR ''-'', CHR ''.''})"

definition is_c0_or_space :: "char \<Rightarrow> bool" where
  "is_c0_or_space c = ((of_char c :: nat) \<le> 32)"

definition is_unsafe :: "char \<Rightarrow> bool" where
  "is_unsafe c = ((of_char c :: nat) \<in> {9, 10, 13})"

text \<open>\<open>s.split(c, 1)\<close> for a \<open>c\<close> that occurs in \<open>s\<close>: the text before and after its first occurrence.\<close>

definition split_first :: "char \<Rightarrow> string \<Rightarrow> string \<times> string" where
  "split_first c s = (takeWhile (\<lambda>x. x \<noteq> c) s, drop 1 (dropWhile (\<lambda>x. x \<noteq> c) s))"

definition split_scheme :: "string \<Rightarrow> string \<times> string" where
  "split_scheme url =
     (let pre = takeWhile (\<lambda>x. x \<noteq> CHR '':'') url in
      if CHR '':'' \<in> set url \<and> pre \<noteq> [] \<and> is_ascii_alpha (hd url) \<and> list_all is_scheme_char pre
      then (lower pre, drop (Suc (length pre)) url)
      else ([], url))"

definition is_netloc_delim :: "char \<Rightarrow> bool" where
  "is_netloc_delim c = (c \<in> {CHR ''/'', CHR ''?'', CHR ''#''})"

definition splitnetloc :: "string \<Rightarrow> string \<times> string" where
  "splitnetloc url =
     (takeWhile (\<lambda>x. \<not> is_netloc_delim x) (drop 2 url),
      dropWhile (\<lambda>x. \<not> is_netloc_delim x) (drop 2 url))"

definition bracketed_host :: "string \<Rightarrow> string" where
  "bracketed_host nl = fst (split_first CHR '']'' (snd (split_first CHR ''['' nl)))"

definition netloc_ok :: "(string \<Rightarrow> bool) \<Rightarrow> string \<Rightarrow> bool" where
  "netloc_ok bracket_ok nl =
     (if CHR ''['' \<in> set nl \<and> CHR '']'' \<in> set nl then bracket_ok (bracketed_host nl)
      else CHR ''['' \<notin> set nl \<and> CHR '']'' \<notin> set nl)"

definition urlsplit :: "(string \<Rightarrow> bool) \<Rightarrow> string \<Rightarrow> parse_result option" where
  "urlsplit bracket_ok url0 =
     (let url = dropWhile is_c0_or_space url0;
          url = filter (\<lambda>c. \<not> is_unsafe c) url;
          (sch, url) = split_scheme url;
          (nl, url) = (if take 2 url = ''//'' then splitnetloc url else ([], url))
      in if \<not> netloc_ok bracket_ok nl then None
         else
           let (url, frag) = (if CHR ''#'' \<in> set url then split_first CHR ''#'' url else (url, []));
               (url, qry) = (if CHR ''?'' \<in> set url then split_first CHR ''?'' url else (url, []))
           in Some \<lparr>scheme = sch, netloc = nl, path = url, params = [], query = qry,
                    fragment = frag\<rparr>)"

text \<open>
  \<open>_splitparams\<close>: the parameters start at the first semicolon of the last path segment
  (\<open>url.find(';', url.rfind('/'))\<close>).
\<close>

definition last_segment :: "string \<Rightarrow> string" where
  "last_segment url = rev (takeWhile (\<lambda>x. x \<noteq> CHR ''/'') (rev url))"

definition splitparams :: "string \<Rightarrow> string \<times> string" where
  "splitparams url =
     (let seg = last_segment url;
          k = length url - length seg
      in if CHR '';'' \<in> set seg
         then (take k url @ takeWhile (\<lambda>x. x \<noteq> CHR '';'') seg,
               drop 1 (dropWhile (\<lambda>x. x \<noteq> CHR '';'') seg))
         else (url, []))"

definition urlparse :: "(string \<Rightarrow> bool) \<Rightarrow> string \<Rightarrow> parse_result option" where
  "urlparse bracket_ok url =
     (case urlsplit bracket_ok url of
        None \<Rightarrow> None
      | Some r \<Rightarrow>
          if scheme r \<in> set uses_params \<and> CHR '';'' \<in> set (path r)
          then (let (u, ps) = splitparams (path r) in Some (r\<lparr>path := u, params := ps\<rparr>))
          else Some r)"

definition urlunsplit :: "string \<Rightarrow> string \<Rightarrow> string \<Rightarrow> string \<Rightarrow> string \<Rightarrow> string" where
  "urlunsplit sch nl url0 qry frag =
     (let url = (if nl \<noteq> [] \<or> (sch \<noteq> [] \<and> sch \<in> set uses_netloc) \<or> take 2 url0 = ''//''
                 then ''//'' @ nl @ (if url0 \<noteq> [] \<and> take 1 url0 \<noteq> ''/'' then ''/'' @ url0 else url0)
                 else url0);
          url = (if sch \<noteq> [] then sch @ '':'' @ url else url);
          url = (if qry \<noteq> [] then url @ ''?'' @ qry else url);
          url = (if frag \<noteq> [] then url @ ''#'' @ frag else url)
      in url)"

definition urlunparse :: "parse_result \<Rightarrow> string" where
  "urlunparse r =
     urlunsplit (scheme r) (netloc r)
       (if params r \<noteq> [] then path r @ '';'' @ params r else path r)
       (query r) (fragment r)"

section \<open>URLProcessor\<close>

definition rstrip_slash :: "string \<Rightarrow> string" where
  "rstrip_slash s = rev (dropWhile (\<lambda>x. x = CHR ''/'') (rev s))"

text \<open>The body of \<open>normalize_url\<close> between \<open>urlparse\<close> and \<open>urlunparse\<close>.\<close>

definition normalize_parsed :: "parse_result \<Rightarrow> parse_result" where
  "normalize_parsed parsed0 =
     (let parsed = parsed0\<lparr>fragment := []\<rparr>;
          parsed = (if scheme parsed = [] then parsed\<lparr>scheme := ''https''\<rparr> else parsed);
          nl = lower (netloc parsed);
          nl = (if startswith nl ''www.'' \<and> 4 < length nl then drop 4 nl else nl);
          parsed = parsed\<lparr>netloc := nl\<rparr>;
          p = rstrip_slash (path parsed);
          p = (if p = [] then ''/'' else p)
      in parsed\<lparr>path := p\<rparr>)"

definition normalize_url :: "(string \<Rightarrow> bool) \<Rightarrow> string \<Rightarrow> string" where
  "normalize_url bracket_ok url =
     (case urlparse bracket_ok (strip url) of
        None \<Rightarrow> url
      | Some parsed \<Rightarrow> urlunparse (normalize_parsed parsed))"

text \<open>
  \<open>should_exclude_url\<close>: each exclusion pattern \<open>p\<close> is given as the predicate
  \<open>\<lambda>url. re.search(p, url, re.IGNORECASE)\<close>.
\<close>

definition should_exclude_url :: "string \<Rightarrow> (string \<Rightarrow> bool) list \<Rightarrow> bool" where
  "should_exclude_url url exclude_patterns = (\<exists>p \<in> set exclude_patterns. p url)"

section \<open>The world outside the program\<close>

text \<open>
  Network calls and library calls either return or raise.  An exception is kept with the
  handler class that catches it and its text \<open>str(e)\<close>: \<open>asyncio.TimeoutError\<close>,
  \<open>aiohttp.ClientError\<close>, or any other \<open>Exception\<close>.
\<close>

datatype exn = TimeoutError string | ClientError string | OtherError string

fun exn_str :: "exn \<Rightarrow> string" where
  "exn_str (TimeoutError m) = m"
| "exn_str (ClientError m) = m"
| "exn_str (OtherError m) = m"

datatype 'a outcome = Returned 'a | Raised exn

text \<open>
  An HTTP response as the scrapers read it: the status, whether \<open>response.history\<close> is
  non-empty (the request was redirected), \<open>str(response.url)\<close>, and what
  \<open>await response.text()\<close> gives.
\<close>

record response =
  status :: nat
  history :: bool
  response_url :: string
  response_text :: "string outcome"

text \<open>
  The environment collects what the programs call but do not define: the check of a
  bracketed host inside \<open>urlsplit\<close>, the text of the \<open>ValueError\<close> that \<open>urlparse\<close> raises
  on a URL, \<open>urljoin\<close>, the HTML parser, and the three ways a page is requested:
  \<open>session.get\<close> of the enhanced scraper (with the number of requests made before, so
  that a retry may be answered differently), \<open>session.get\<close> of the simple scrapers and
  \<open>urllib.request.urlopen\<close> followed by \<open>read().decode(...)\<close>.
\<close>

record env =
  bracket_ok :: "string \<Rightarrow> bool"
  value_error_str :: "string \<Rightarrow> string"
  urljoin :: "string \<Rightarrow> string \<Rightarrow> string outcome"
  parse_html :: "string \<Rightarrow> node"
  session_get :: "nat \<Rightarrow> string \<Rightarrow> response outcome"
  http_get :: "string \<Rightarrow> response outcome"
  urlopen :: "string \<Rightarrow> string outcome"

text \<open>Decimal text of a number, for \<open>f"HTTP {response.status}"\<close>.\<close>

definition digit_char :: "nat \<Rightarrow> char" where
  "digit_char d = char_of (48 + d)"

function str_nat :: "nat \<Rightarrow> string" where
  "str_nat n = (if n < 10 then [digit_char n] else str_nat (n div 10) @ [digit_char (n mod 10)])"
  by pat_completeness auto
termination
  by (relation "measure id") auto

declare str_nat.simps [simp del]

section \<open>ContentExtractor.extract\_links\<close>

datatype link_type = Internal | External | Relative

record link =
  link_url :: string
  link_text :: string
  link_title :: string
  link_kind :: link_type

definition has_attr :: "string \<Rightarrow> node \<Rightarrow> bool" where
  "has_attr k n = (map_of (attrs n) k \<noteq> None)"

definition get_attr :: "string \<Rightarrow> node \<Rightarrow> string" where
  "get_attr k n = (case map_of (attrs n) k of None \<Rightarrow> [] | Some v \<Rightarrow> v)"

text \<open>
  The loop over the anchors, with the links found so far and the set \<open>seen_urls\<close>.
  \<open>urljoin\<close> and \<open>normalize_url\<close> are inside a \<open>try\<close> that skips the anchor; the two calls of
  \<open>urlparse\<close> that classify the link are not, so their \<open>ValueError\<close> leaves the function.
\<close>

fun links_loop ::
  "env \<Rightarrow> string \<Rightarrow> node list \<Rightarrow> link list \<Rightarrow> string set \<Rightarrow> link list outcome" where
  "links_loop E base_url [] links seen_urls = Returned links"
| "links_loop E base_url (a # as) links seen_urls =
     (let href = strip (get_attr ''href'' a) in
      if href = [] \<or> startswith href ''#'' then links_loop E base_url as links seen_urls
      else case urljoin E base_url href of
        Raised e \<Rightarrow> links_loop E base_url as links seen_urls
      | Returned joined \<Rightarrow>
          let full_url = normalize_url (bracket_ok E) joined in
          if full_url \<in> seen_urls then links_loop E base_url as links seen_urls
          else
            let link_text = clean_text (get_text a) in
            case urlparse (bracket_ok E) full_url of
              None \<Rightarrow> Raised (OtherError (value_error_str E full_url))
            | Some parsed \<Rightarrow>
                (case urlparse (bracket_ok E) base_url of
                   None \<Rightarrow> Raised (OtherError (value_error_str E base_url))
                 | Some base_parsed \<Rightarrow>
                     let kind = (if netloc parsed = netloc base_parsed then Internal
                                 else if netloc parsed = [] then Relative
                                 else External)
                     in links_loop E base_url as
                          (links @ [\<lparr>link_url = full_url, link_text = link_text,
                                     link_title = get_attr ''title'' a, link_kind = kind\<rparr>])
                          (insert full_url seen_urls)))"

definition extract_links :: "env \<Rightarrow> node \<Rightarrow> string \<Rightarrow> link list outcome" where
  "extract_links E soup base_url =
     links_loop E base_url (filter (has_attr ''href'') (find_all [''a''] soup)) [] {}"

section \<open>EnhancedWebScraper.scrape\_url\<close>

record scraping_config =
  max_retries :: int
  timeout :: int
  delay_between_requests :: real
  user_agent :: string
  max_redirects :: int
  exclude_patterns :: "(string \<Rightarrow> bool) list"

text \<open>
  The scraper object with its set of visited URLs, and a log of what it did to the world:
  the URLs requested with \<open>session.get\<close>, in order, and the arguments of \<open>asyncio.sleep\<close>.
\<close>

record scraper =
  visited_urls :: "string set"
  requests :: "string list"
  sleeps :: "nat list"

record failure =
  error :: string
  error_url :: string
  error_status_code :: "nat option"

text \<open>
  The result dictionary of a page.  Of its keys the model leaves out \<open>media\<close>, \<open>meta\<close>,
  \<open>structured_data\<close>, the counts of images and videos, the time stamps and the two
  response headers: they are computed from the tree and the response without raising,
  and no other key depends on them.
\<close>

record page_result =
  r_url :: string
  r_original_url :: string
  r_domain :: string
  r_path :: string
  r_title :: string
  r_headings :: "heading list"
  r_paragraphs :: "string list"
  r_lists :: "html_list list"
  r_tables :: "string list list list"
  r_main_content :: string
  r_links :: "link list"
  r_content_length :: nat
  r_text_length :: nat
  r_quality_score :: rat
  r_headings_count :: nat
  r_paragraphs_count :: nat
  r_links_count :: nat
  r_lists_count :: nat
  r_tables_count :: nat
  r_status_code :: nat

datatype scrape_result = Failure failure | Success page_result

definition status_message :: "nat \<Rightarrow> string" where
  "status_message st =
     (let error_msg = ''HTTP '' @ str_nat st in
      if st = 404 then ''Page not found''
      else if st = 403 then ''Access forbidden''
      else if st = 500 then ''Server error''
      else error_msg)"

text \<open>What follows \<open>html = await response.text()\<close> when the status is 200.\<close>

definition build_result :: "env \<Rightarrow> string \<Rightarrow> string \<Rightarrow> nat \<Rightarrow> string \<Rightarrow> scrape_result outcome" where
  "build_result E url normalized_url st html =
     (let (c, soup) = extract_main_content (parse_html E html) in
      case extract_links E soup normalized_url of
        Raised e \<Rightarrow> Raised e
      | Returned links \<Rightarrow>
          let quality_score = calculate_quality_score c (length html) in
          case urlparse (bracket_ok E) normalized_url of
            None \<Rightarrow> Raised (OtherError (value_error_str E normalized_url))
          | Some parsed_url \<Rightarrow>
              Returned (Success
                \<lparr>r_url = normalized_url,
                 r_original_url = url,
                 r_domain = netloc parsed_url,
                 r_path = path parsed_url,
                 r_title = title c,
                 r_headings = headings c,
                 r_paragraphs = paragraphs c,
                 r_lists = lists c,
                 r_tables = tables c,
                 r_main_content = take 1000 (main_content c),
                 r_links = links,
                 r_content_length = length html,
                 r_text_length = length (main_content c),
                 r_quality_score = quality_score,
                 r_headings_count = length (headings c),
                 r_paragraphs_count = length (paragraphs c),
                 r_links_count = length links,
                 r_lists_count = length (lists c),
                 r_tables_count = length (tables c),
                 r_status_code = st\<rparr>))"

text \<open>
  The body of the \<open>try\<close> statement: one attempt.  It returns a result, or raises, and
  leaves the scraper as the attempt changed it.
\<close>

definition attempt :: "env \<Rightarrow> scraping_config \<Rightarrow> scraper \<Rightarrow> string \<Rightarrow> scrape_result outcome \<times> scraper" where
  "attempt E cfg s url =
     (let normalized_url = normalize_url (bracket_ok E) url in
      if normalized_url \<in> visited_urls s then
        (Returned (Failure \<lparr>error = ''Already visited'', error_url = url,
                             error_status_code = None\<rparr>), s)
      else if should_exclude_url normalized_url (exclude_patterns cfg) then
        (Returned (Failure \<lparr>error = ''URL excluded by pattern'', error_url = url,
                             error_status_code = None\<rparr>), s)
      else
        let s1 = s\<lparr>visited_urls := insert normalized_url (visited_urls s),
                   requests := requests s @ [normalized_url]\<rparr> in
        case session_get E (length (requests s)) normalized_url of
          Raised e \<Rightarrow> (Raised e, s1)
        | Returned resp \<Rightarrow>
            let normalized_url = (if history resp
                                  then normalize_url (bracket_ok E) (response_url resp)
                                  else normalized_url) in
            if status resp \<noteq> 200 then
              (Returned (Failure \<lparr>error = status_message (status resp),
                                   error_url = normalized_url,
                                   error_status_code = Some (status resp)\<rparr>), s1)
            else case response_text resp of
                Raised e \<Rightarrow> (Raised e, s1)
              | Returned html \<Rightarrow> (build_result E url normalized_url (status resp) html, s1))"

text \<open>
  \<open>scrape_url\<close> with its three handlers.  The two retrying handlers sleep
  \<open>2 ** retry_count\<close> seconds and call \<open>scrape_url\<close> again with the same \<open>url\<close>.
\<close>

function scrape_url ::
  "env \<Rightarrow> scraping_config \<Rightarrow> scraper \<Rightarrow> string \<Rightarrow> nat \<Rightarrow> scrape_result \<times> scraper" where
  "scrape_url E cfg s url retry_count =
     (case attempt E cfg s url of
        (Returned r, s1) \<Rightarrow> (r, s1)
      | (Raised (TimeoutError m), s1) \<Rightarrow>
          if int retry_count < max_retries cfg
          then scrape_url E cfg (s1\<lparr>sleeps := sleeps s1 @ [2 ^ retry_count]\<rparr>) url (retry_count + 1)
          else (Failure \<lparr>error = ''Timeout'', error_url = url, error_status_code = None\<rparr>, s1)
      | (Raised (ClientError m), s1) \<Rightarrow>
          if int retry_count < max_retries cfg
          then scrape_url E cfg (s1\<lparr>sleeps := sleeps s1 @ [2 ^ retry_count]\<rparr>) url (retry_count + 1)
          else (Failure \<lparr>error = ''Client error: '' @ m, error_url = url,
                          error_status_code = None\<rparr>, s1)
      | (Raised (OtherError m), s1) \<Rightarrow>
          (Failure \<lparr>error = ''Unexpected error: '' @ m, error_url = url,
                    error_status_code = None\<rparr>, s1))"
  by pat_completeness auto
termination
  by (relation "measure (\<lambda>(E, cfg, s, url, retry_count). nat (max_retries cfg - int retry_count))") auto

declare scrape_url.simps [simp del]

section \<open>scrape\_single\_page (simple\_scraper.py, test\_api.py)\<close>

record simple_link =
  sl_url :: string
  sl_text :: string

record image =
  img_src :: string
  img_alt :: string
  img_title :: string

text \<open>The page dictionary, without its \<open>meta\<close> and \<open>scraped_at\<close> keys.\<close>

record page =
  p_url :: string
  p_title :: string
  p_headings :: "string list"
  p_paragraphs :: "string list"
  p_links :: "simple_link list"
  p_images :: "image list"
  p_content_length :: nat
  p_headings_count :: nat
  p_paragraphs_count :: nat
  p_links_count :: nat
  p_images_count :: nat

record page_error =
  pe_error :: string
  pe_url :: string

fun images_loop :: "env \<Rightarrow> string \<Rightarrow> node list \<Rightarrow> image list outcome" where
  "images_loop E url [] = Returned []"
| "images_loop E url (img # imgs) =
     (let src = get_attr ''src'' img in
      if src \<noteq> [] then
        (case urljoin E url src of
           Raised e \<Rightarrow> Raised e
         | Returned full_url \<Rightarrow>
             (case images_loop E url imgs of
                Raised e \<Rightarrow> Raised e
              | Returned rest \<Rightarrow>
                  Returned (\<lparr>img_src = full_url, img_alt = get_attr ''alt'' img,
                             img_title = get_attr ''title'' img\<rparr> # rest)))
      else images_loop E url imgs)"

definition extract_page :: "env \<Rightarrow> string \<Rightarrow> string \<Rightarrow> page outcome" where
  "extract_page E url html =
     (let soup = parse_html E html;
          title_text = (case find_first ''title'' soup of
                          Some t \<Rightarrow> strip (get_text t)
                        | None \<Rightarrow> ''No title'');
          hs = concat (map (\<lambda>tg. map (\<lambda>h. strip (get_text h)) (find_all [tg] soup))
                         [''h1'', ''h2'', ''h3'', ''h4'', ''h5'', ''h6'']);
          ps = filter (\<lambda>t. t \<noteq> [] \<and> 20 < length t)
                 (map (\<lambda>p. strip (get_text p)) (find_all [''p''] soup));
          ls = map (\<lambda>a. \<lparr>sl_url = get_attr ''href'' a, sl_text = take 100 (strip (get_text a))\<rparr>)
                 (filter (\<lambda>a. get_attr ''href'' a \<noteq> [] \<and> startswith (get_attr ''href'' a) ''http'')
                    (filter (has_attr ''href'') (find_all [''a''] soup)))
      in case images_loop E url (filter (has_attr ''src'') (find_all [''img''] soup)) of
           Raised e \<Rightarrow> Raised e
         | Returned imgs \<Rightarrow>
             Returned \<lparr>p_url = url, p_title = title_text, p_headings = take 20 hs,
                       p_paragraphs = take 50 ps, p_links = take 100 ls,
                       p_images = take 50 imgs, p_content_length = length html,
                       p_headings_count = length hs, p_paragraphs_count = length ps,
                       p_links_count = length ls, p_images_count = length imgs\<rparr>)"

text \<open>
  \<open>scrape_single_page\<close> returns the page dictionary, or a dictionary with the key
  \<open>error\<close>; every exception is caught and becomes such a dictionary.
\<close>

definition scrape_single_page :: "env \<Rightarrow> string \<Rightarrow> page_error + page" where
  "scrape_single_page E url =
     (case http_get E url of
        Raised e \<Rightarrow> Inl \<lparr>pe_error = exn_str e, pe_url = url\<rparr>
      | Returned resp \<Rightarrow>
          if status resp \<noteq> 200
          then Inl \<lparr>pe_error = ''HTTP '' @ str_nat (status resp), pe_url = url\<rparr>
          else (case response_text resp of
                  Raised e \<Rightarrow> Inl \<lparr>pe_error = exn_str e, pe_url = url\<rparr>
                | Returned html \<Rightarrow>
                    (case extract_page E url html of
                       Raised e \<Rightarrow> Inl \<lparr>pe_error = exn_str e, pe_url = url\<rparr>
                     | Returned pg \<Rightarrow> Inr pg)))"

section \<open>scrape\_website (simple\_scraper.py) and scrape\_website\_async (test\_api.py)\<close>

record crawl_state =
  scraped_pages :: "page list"
  visited :: "string set"
  urls_to_visit :: "string list"

text \<open>
  The loop that builds \<open>tasks\<close>: it runs before any task, so \<open>len(scraped_pages)\<close> is the
  number \<open>n\<close> of pages at the start of the round for every URL of the round.
\<close>

fun build_tasks :: "int \<Rightarrow> nat \<Rightarrow> string list \<Rightarrow> string set \<Rightarrow> string list \<times> string set" where
  "build_tasks max_pages n [] vis = ([], vis)"
| "build_tasks max_pages n (u # us) vis =
     (if u \<notin> vis \<and> int n < max_pages
      then (let (ts, vis') = build_tasks max_pages n us (insert u vis) in (u # ts, vis'))
      else build_tasks max_pages n us vis)"

definition next_links :: "string \<Rightarrow> string set \<Rightarrow> page \<Rightarrow> string list" where
  "next_links base_url vis pg =
     filter (\<lambda>link_url. link_url \<noteq> [] \<and> startswith link_url base_url \<and> link_url \<notin> vis)
       (map sl_url (p_links pg))"

text \<open>The loop over \<open>results\<close>, which \<open>asyncio.gather\<close> returns in the order of the tasks.\<close>

fun handle_results ::
  "string \<Rightarrow> bool \<Rightarrow> (page_error + page) list \<Rightarrow> crawl_state \<Rightarrow> crawl_state" where
  "handle_results base_url collect [] st = st"
| "handle_results base_url collect (Inl e # rs) st = handle_results base_url collect rs st"
| "handle_results base_url collect (Inr pg # rs) st =
     handle_results base_url collect rs
       (st\<lparr>scraped_pages := scraped_pages st @ [pg],
           urls_to_visit := urls_to_visit st @
             (if collect then next_links base_url (visited st) pg else [])\<rparr>)"

definition run_round ::
  "env \<Rightarrow> string \<Rightarrow> int \<Rightarrow> int \<Rightarrow> bool \<Rightarrow> nat \<Rightarrow> crawl_state \<Rightarrow> crawl_state" where
  "run_round E base_url depth max_pages include_images current_depth st =
     (let current_urls = urls_to_visit st;
          (tasks, vis) = build_tasks max_pages (length (scraped_pages st)) current_urls (visited st);
          st1 = st\<lparr>urls_to_visit := [], visited := vis\<rparr>;
          results = map (scrape_single_page E) tasks
      in handle_results base_url (int current_depth < depth - 1 \<and> include_images) results st1)"

text \<open>\<open>for current_depth in range(depth)\<close>, with its \<open>break\<close>.\<close>

fun crawl_loop ::
  "env \<Rightarrow> string \<Rightarrow> int \<Rightarrow> int \<Rightarrow> bool \<Rightarrow> nat list \<Rightarrow> crawl_state \<Rightarrow> crawl_state" where
  "crawl_loop E base_url depth max_pages include_images [] st = st"
| "crawl_loop E base_url depth max_pages include_images (current_depth # ds) st =
     (if urls_to_visit st = [] \<or> max_pages \<le> int (length (scraped_pages st)) then st
      else crawl_loop E base_url depth max_pages include_images ds
             (run_round E base_url depth max_pages include_images current_depth st))"

definition crawl :: "env \<Rightarrow> string \<Rightarrow> int \<Rightarrow> int \<Rightarrow> bool \<Rightarrow> crawl_state" where
  "crawl E url depth max_pages include_images =
     crawl_loop E url depth max_pages include_images [0 ..< nat depth]
       \<lparr>scraped_pages = [], visited = {}, urls_to_visit = [url]\<rparr>"

record job_result =
  j_base_url :: string
  j_pages_scraped :: nat
  j_depth :: int
  j_max_pages :: int
  j_pages :: "page list"
  j_total_headings :: nat
  j_total_paragraphs :: nat
  j_total_links :: nat
  j_total_images :: nat
  j_total_content_length :: nat

definition scrape_website_async :: "env \<Rightarrow> string \<Rightarrow> int \<Rightarrow> int \<Rightarrow> bool \<Rightarrow> job_result" where
  "scrape_website_async E url depth max_pages include_images =
     (let pgs = scraped_pages (crawl E url depth max_pages include_images) in
      \<lparr>j_base_url = url,
       j_pages_scraped = length pgs,
       j_depth = depth,
       j_max_pages = max_pages,
       j_pages = pgs,
       j_total_headings = sum_list (map (\<lambda>pg. length (p_headings pg)) pgs),
       j_total_paragraphs = sum_list (map (\<lambda>pg. length (p_paragraphs pg)) pgs),
       j_total_links = sum_list (map (\<lambda>pg. length (p_links pg)) pgs),
       j_total_images = sum_list (map (\<lambda>pg. length (p_images pg)) pgs),
       j_total_content_length = sum_list (map p_content_length pgs)\<rparr>)"

text \<open>
  \<open>scrape_website\<close> of \<open>simple_scraper.py\<close> is the same text without the flag
  \<open>include_images\<close> in the condition that collects links.
\<close>

definition scrape_website :: "env \<Rightarrow> string \<Rightarrow> int \<Rightarrow> int \<Rightarrow> job_result" where
  "scrape_website E url depth max_pages = scrape_website_async E url depth max_pages True"

section \<open>scrape\_enhanced (main.py)\<close>

text \<open>
  The development-mode crawl of the \<open>/scrape-enhanced\<close> endpoint: a queue of URLs, one
  page per iteration.  Any exception leaves the loop and fails the task.  The page
  dictionary is modelled without its images and metadata.
\<close>

record enhanced_page =
  m_url :: string
  m_title :: string
  m_headings :: "string list"
  m_paragraphs :: "string list"
  m_links :: "simple_link list"
  m_content_length :: nat
  m_headings_count :: nat
  m_paragraphs_count :: nat
  m_links_count :: nat

record enhanced_state =
  e_scraped_pages :: "enhanced_page list"
  e_urls_to_scrape :: "string list"
  e_visited_urls :: "string set"

text \<open>
  The loop over the anchors of one page; \<open>first_page\<close> is \<open>len(scraped_pages) == 0\<close>,
  which does not change while the page is read.
\<close>

fun anchors_loop ::
  "env \<Rightarrow> int \<Rightarrow> bool \<Rightarrow> string \<Rightarrow> string set \<Rightarrow> node list \<Rightarrow> simple_link list \<Rightarrow> string list
     \<Rightarrow> (simple_link list \<times> string list) outcome" where
  "anchors_loop E depth first_page current_url vis [] links queue = Returned (links, queue)"
| "anchors_loop E depth first_page current_url vis (a # as) links queue =
     (let href0 = strip (get_attr ''href'' a);
          link_text = strip (get_text a)
      in if href0 \<noteq> [] \<and> link_text \<noteq> [] then
           (case (if startswith href0 ''/'' then urljoin E current_url href0
                  else Returned href0) of
              Raised e \<Rightarrow> Raised e
            | Returned href \<Rightarrow>
                if \<not> startswith href0 ''/'' \<and>
                   \<not> (startswith href0 ''http://'' \<or> startswith href0 ''https://'')
                then anchors_loop E depth first_page current_url vis as links queue
                else
                  let links' = links @ [\<lparr>sl_url = href, sl_text = link_text\<rparr>] in
                  if 1 < depth \<and> first_page \<and> href \<notin> vis \<and> href \<notin> set queue then
                    (case urlparse (bracket_ok E) href of
                       None \<Rightarrow> Raised (OtherError (value_error_str E href))
                     | Some ph \<Rightarrow>
                         (case urlparse (bracket_ok E) current_url of
                            None \<Rightarrow> Raised (OtherError (value_error_str E current_url))
                          | Some pc \<Rightarrow>
                              if netloc ph = netloc pc
                              then anchors_loop E depth first_page current_url vis as links'
                                     (queue @ [href])
                              else anchors_loop E depth first_page current_url vis as links' queue))
                  else anchors_loop E depth first_page current_url vis as links' queue)
         else anchors_loop E depth first_page current_url vis as links queue)"

text \<open>One pass through the body of the \<open>while\<close> loop for a URL that was not visited.\<close>

definition scrape_page :: "env \<Rightarrow> int \<Rightarrow> string \<Rightarrow> enhanced_state \<Rightarrow> enhanced_state outcome" where
  "scrape_page E depth current_url st =
     (case urlopen E current_url of
        Raised e \<Rightarrow> Raised e
      | Returned html_content \<Rightarrow>
          let soup = parse_html E html_content;
              ttl = (case find_first ''title'' soup of
                       Some t \<Rightarrow> strip (get_text t)
                     | None \<Rightarrow> ''No title found'');
              hs = filter (\<lambda>t. t \<noteq> [] \<and> 2 < length t)
                     (map (\<lambda>h. strip (get_text h))
                        (find_all [''h1'', ''h2'', ''h3'', ''h4'', ''h5'', ''h6''] soup));
              ps = filter (\<lambda>t. t \<noteq> [] \<and> 20 < length t)
                     (map (\<lambda>p. strip (get_text p)) (find_all [''p''] soup))
          in case anchors_loop E depth (e_scraped_pages st = []) current_url (e_visited_urls st)
                    (filter (has_attr ''href'') (find_all [''a''] soup)) [] (e_urls_to_scrape st) of
               Raised e \<Rightarrow> Raised e
             | Returned (links, queue) \<Rightarrow>
                 Returned (st\<lparr>e_urls_to_scrape := queue,
                             e_scraped_pages := e_scraped_pages st @
                               [\<lparr>m_url = current_url, m_title = ttl, m_headings = take 15 hs,
                                 m_paragraphs = take 15 ps, m_links = take 30 links,
                                 m_content_length = length html_content,
                                 m_headings_count = length hs,
                                 m_paragraphs_count = length ps,
                                 m_links_count = length links\<rparr>]\<rparr>))"

text \<open>
  The \<open>while\<close> loop.  Only the page read while \<open>scraped_pages\<close> is still empty can put
  URLs into the queue, which is what makes the loop end.
\<close>

lemma anchors_loop_later_page:
  "anchors_loop E depth False current_url vis as links queue = Returned (ls, q) \<Longrightarrow> q = queue"
  by (induction as arbitrary: links)
     (auto simp: Let_def split: if_splits outcome.splits)

lemma scrape_page_grows:
  assumes "scrape_page E depth current_url st = Returned st2"
  shows "e_scraped_pages st2 \<noteq> []"
    and "e_scraped_pages st \<noteq> [] \<Longrightarrow> e_urls_to_scrape st2 = e_urls_to_scrape st"
  using assms
  by (auto simp: scrape_page_def Let_def split: outcome.splits dest: anchors_loop_later_page)

function scrape_loop :: "env \<Rightarrow> int \<Rightarrow> int \<Rightarrow> enhanced_state \<Rightarrow> enhanced_state outcome" where
  "scrape_loop E depth max_pages st =
     (case e_urls_to_scrape st of
        [] \<Rightarrow> Returned st
      | current_url # rest \<Rightarrow>
          if int (length (e_scraped_pages st)) < max_pages then
            (let st1 = st\<lparr>e_urls_to_scrape := rest\<rparr> in
             if current_url \<in> e_visited_urls st1 then scrape_loop E depth max_pages st1
             else
               (case scrape_page E depth current_url
                       (st1\<lparr>e_visited_urls := insert current_url (e_visited_urls st1)\<rparr>) of
                  Raised e \<Rightarrow> Raised e
                | Returned st2 \<Rightarrow> scrape_loop E depth max_pages st2))
          else Returned st)"
  by pat_completeness auto
termination
proof -
  let ?m = "\<lambda>(E :: env, depth :: int, max_pages :: int, st :: enhanced_state).
       (if e_scraped_pages st = [] then 1 else (0::nat), length (e_urls_to_scrape st))"
  show ?thesis
  proof (relation "inv_image (less_than <*lex*> less_than) ?m")
    show "wf (inv_image (less_than <*lex*> less_than) ?m)"
      by (intro wf_inv_image wf_lex_prod wf_less_than)
  next
    fix E :: env and depth max_pages :: int and st :: enhanced_state
      and current_url rest st1
    assume "e_urls_to_scrape st = current_url # rest" "st1 = st\<lparr>e_urls_to_scrape := rest\<rparr>"
    then show "((E, depth, max_pages, st1), E, depth, max_pages, st) \<in>
      inv_image (less_than <*lex*> less_than) ?m"
      by simp
  next
    fix E :: env and depth max_pages :: int and st :: enhanced_state
      and current_url rest st1 st2
    assume q: "e_urls_to_scrape st = current_url # rest"
      and s1: "st1 = st\<lparr>e_urls_to_scrape := rest\<rparr>"
      and r: "scrape_page E depth current_url
                (st1\<lparr>e_visited_urls := insert current_url (e_visited_urls st1)\<rparr>) = Returned st2"
    have ne: "e_scraped_pages st2 \<noteq> []" using scrape_page_grows(1) [OF r] .
    show "((E, depth, max_pages, st2), E, depth, max_pages, st) \<in>
      inv_image (less_than <*lex*> less_than) ?m"
    proof (cases "e_scraped_pages st = []")
      case True
      then show ?thesis using ne by simp
    next
      case False
      then have "e_urls_to_scrape st2 = rest"
        using scrape_page_grows(2) [OF r] s1 by simp
      then show ?thesis using ne False q by simp
    qed
  qed
qed

declare scrape_loop.simps [simp del]

definition scrape_enhanced :: "env \<Rightarrow> string \<Rightarrow> int \<Rightarrow> int \<Rightarrow> enhanced_state outcome" where
  "scrape_enhanced E url depth max_pages =
     scrape_loop E depth max_pages
       \<lparr>e_scraped_pages = [], e_urls_to_scrape = [url], e_visited_urls = {}\<rparr>"

section \<open>Concrete sites\<close>

text \<open>
  A small site used to run the crawlers: the home page links to three pages, the first of
  which links to a fourth; every request is answered with status 200.
\<close>

definition any_host :: "string \<Rightarrow> bool" where
  "any_host h = True"

definition document :: "node list \<Rightarrow> node" where
  "document cs = Element ''[document]'' [] cs"

definition anchor :: "string \<Rightarrow> string \<Rightarrow> node" where
  "anchor href txt = Element ''a'' [(''href'', href)] [Text NavigableString txt]"

definition home_html :: string where
  "home_html = ''<a href=http://s.io/a>A</a><a href=http://s.io/b>B</a><a href=http://s.io/c>C</a>''"

definition a_html :: string where
  "a_html = ''<a href=http://s.io/d>D</a>''"

definition leaf_html :: string where
  "leaf_html = ''<p>leaf</p>''"

definition site_parse :: "string \<Rightarrow> node" where
  "site_parse html =
     (if html = home_html
      then document [anchor ''http://s.io/a'' ''A'', anchor ''http://s.io/b'' ''B'',
                     anchor ''http://s.io/c'' ''C'']
      else if html = a_html then document [anchor ''http://s.io/d'' ''D'']
      else document [Element ''p'' [] [Text NavigableString ''leaf'']])"

definition ok_response :: "string \<Rightarrow> string \<Rightarrow> response" where
  "ok_response u html = \<lparr>status = 200, history = False, response_url = u, response_text = Returned html\<rparr>"

definition site_page :: "string \<Rightarrow> string" where
  "site_page u = (if u = ''http://s.io'' then home_html
                  else if u = ''http://s.io/a'' then a_html else leaf_html)"

definition site_env :: env where
  "site_env = \<lparr>bracket_ok = any_host,
     value_error_str = (\<lambda>u. ''Invalid IPv6 URL''),
     urljoin = (\<lambda>base u. Returned u),
     parse_html = site_parse,
     session_get = (\<lambda>n u. Returned (ok_response u (site_page u))),
     http_get = (\<lambda>u. Returned (ok_response u (site_page u))),
     urlopen = (\<lambda>u. Returned (site_page u))\<rparr>"

text \<open>The same site when the server answers every request with status 404.\<close>

definition gone_env :: env where
  "gone_env = site_env\<lparr>
     http_get := (\<lambda>u. Returned \<lparr>status = 404, history = False, response_url = u,
                                   response_text = Returned []\<rparr>),
     session_get := (\<lambda>n u. Returned \<lparr>status = 404, history = False, response_url = u,
                                        response_text = Returned []\<rparr>)\<rparr>"

text \<open>The same site when every request times out.\<close>

definition timeout_env :: env where
  "timeout_env = site_env\<lparr>session_get := (\<lambda>n u. Raised (TimeoutError []))\<rparr>"

definition retry_config :: scraping_config where
  "retry_config = \<lparr>max_retries = 3, timeout = 30, delay_between_requests = 1,
     user_agent = ''Enhanced Web Scraper 1.0'', max_redirects = 10, exclude_patterns = []\<rparr>"

definition new_scraper :: scraper where
  "new_scraper = \<lparr>visited_urls = {}, requests = [], sleeps = []\<rparr>"

section \<open>Notions of the specification\<close>

text \<open>The pages among the results of a round, in order.\<close>

fun successes :: "(page_error + page) list \<Rightarrow> page list" where
  "successes [] = []"
| "successes (Inl e # rs) = successes rs"
| "successes (Inr pg # rs) = pg # successes rs"

text \<open>
  The quality score as the specification words it: the bonuses that apply, summed in the
  order in which they are listed and capped at 1.  The tiers of the main-content length
  and of the density exclude one another.  \<open>density\<close> is the main-content length divided
  by the raw HTML length.  The numbers are floats and the sum is the floating-point sum.
\<close>

definition bonuses :: "nat \<Rightarrow> nat \<Rightarrow> nat \<Rightarrow> nat \<Rightarrow> rat \<Rightarrow> rat list" where
  "bonuses title_len content_len n_headings n_paragraphs density =
     (if 10 < title_len then [fround (2 / 10)] else [])
     @ (if 500 < content_len then [fround (3 / 10)] else [])
     @ (if 200 < content_len \<and> content_len \<le> 500 then [fround (2 / 10)] else [])
     @ (if 100 < content_len \<and> content_len \<le> 200 then [fround (1 / 10)] else [])
     @ (if 1 \<le> n_headings then [fround (2 / 10)] else [])
     @ (if 1 \<le> n_paragraphs then [fround (2 / 10)] else [])
     @ (if 3 < n_paragraphs then [fround (1 / 10)] else [])
     @ (if fround (1 / 10) < density then [fround (1 / 10)] else [])
     @ (if fround (5 / 100) < density \<and> density \<le> fround (1 / 10)
        then [fround (5 / 100)] else [])"

definition quality_formula :: "nat \<Rightarrow> nat \<Rightarrow> nat \<Rightarrow> nat \<Rightarrow> rat \<Rightarrow> rat" where
  "quality_formula title_len content_len n_headings n_paragraphs density =
     min 1 (foldl fadd 0 (bonuses title_len content_len n_headings n_paragraphs density))"

text \<open>The same sum in exact decimal arithmetic.\<close>

definition decimal_formula :: "nat \<Rightarrow> nat \<Rightarrow> nat \<Rightarrow> nat \<Rightarrow> rat \<Rightarrow> rat" where
  "decimal_formula title_len content_len n_headings n_paragraphs density =
     min 1
       ((if 10 < title_len then 2 / 10 else 0)
        + (if 500 < content_len then 3 / 10
           else if 200 < content_len then 2 / 10
           else if 100 < content_len then 1 / 10 else 0)
        + (if 1 \<le> n_headings then 2 / 10 else 0)
        + (if 1 \<le> n_paragraphs then 2 / 10 else 0)
        + (if 3 < n_paragraphs then 1 / 10 else 0)
        + (if 1 / 10 < density then 1 / 10 else if 5 / 100 < density then 5 / 100 else 0))"

text \<open>A text is boilerplate when, stripped and with its white space collapsed, it matches a skip pattern.\<close>

definition boilerplate :: "string \<Rightarrow> bool" where
  "boilerplate t = (\<exists>p \<in> set skip_patterns. p (sub_spaces (strip t)))"

text \<open>
  The invariant of the crawl loop: the pages collected are the pages that
  \<open>scrape_single_page\<close> returns for the visited URLs, each once.
\<close>

definition crawl_inv :: "env \<Rightarrow> crawl_state \<Rightarrow> bool" where
  "crawl_inv E st =
     ((\<forall>pg \<in> set (scraped_pages st). p_url pg \<in> visited st \<and> scrape_single_page E (p_url pg) = Inr pg)
      \<and> (\<forall>u \<in> visited st. \<forall>pg. scrape_single_page E u = Inr pg \<longrightarrow> pg \<in> set (scraped_pages st))
      \<and> distinct (map p_url (scraped_pages st)))"




text \<open>The state of the queue crawl of \<open>main.py\<close> after the home page of the site.\<close>

definition home_page :: enhanced_page where
  "home_page = \<lparr>m_url = ''http://s.io'', m_title = ''No title found'', m_headings = [],
     m_paragraphs = [],
     m_links = [\<lparr>sl_url = ''http://s.io/a'', sl_text = ''A''\<rparr>,
                \<lparr>sl_url = ''http://s.io/b'', sl_text = ''B''\<rparr>,
                \<lparr>sl_url = ''http://s.io/c'', sl_text = ''C''\<rparr>],
     m_content_length = 81, m_headings_count = 0, m_paragraphs_count = 0, m_links_count = 3\<rparr>"

definition after_home :: enhanced_state where
  "after_home = \<lparr>e_scraped_pages = [home_page],
     e_urls_to_scrape = [''http://s.io/b'', ''http://s.io/c''],
     e_visited_urls = {''http://s.io'', ''http://s.io/a''}\<rparr>"

definition start_state :: crawl_state where
  "start_state = \<lparr>scraped_pages = [], visited = {}, urls_to_visit = [''http://s.io'']\<rparr>"

definition page_link_urls :: "page \<Rightarrow> string list" where
  "page_link_urls pg = map sl_url (p_links pg)"

text \<open>Documents for the paragraph filter.\<close>

definition p_elem :: "string \<Rightarrow> node" where
  "p_elem t = Element ''p'' [] [Text NavigableString t]"

definition short_text :: string where
  "short_text = ''Read more here.''"

definition one_word_text :: string where
  "one_word_text = ''https://example.com/a/very/long/path/to/pages''"

definition follow_text :: string where
  "follow_text = ''Follow us on social media for the latest news''"

definition footer_page :: node where
  "footer_page = document [p_elem follow_text, anchor ''http://s.io/'' ''Home'']"

text \<open>A page content with a title of 13 characters and 150 characters of main content.\<close>

definition titled_content :: content where
  "titled_content = \<lparr>title = ''Hello, World!'', headings = [], paragraphs = [], lists = [],
     tables = [], main_content = replicate 150 CHR ''x''\<rparr>"

section \<open>Cleaning text\<close>






section \<open>The quality score\<close>

lemma round_half_even_nonneg: "0 \<le> x \<Longrightarrow> 0 \<le> round_half_even x"
  by (auto simp: round_half_even_def Let_def)

lemma fround_nonneg: "0 \<le> x \<Longrightarrow> 0 \<le> fround x"
proof (cases "x = 0")
  case True
  then show ?thesis by (simp add: fround_def)
next
  case False
  assume "0 \<le> x"
  with False have p: "0 < x" by simp
  have "0 \<le> round_half_even (\<bar>x\<bar> * 2 powi (52 - binade \<bar>x\<bar>))"
    by (rule round_half_even_nonneg) simp
  then have "0 \<le> (of_int (round_half_even (\<bar>x\<bar> * 2 powi (52 - binade \<bar>x\<bar>))) :: rat)
                   * 2 powi (binade \<bar>x\<bar> - 52)"
    by simp
  then show ?thesis using p False by (simp add: fround_def Let_def)
qed

lemma foldl_fadd_nonneg:
  "0 \<le> s \<Longrightarrow> \<forall>b \<in> set bs. 0 \<le> b \<Longrightarrow> 0 \<le> foldl fadd s bs"
proof (induction bs arbitrary: s)
  case Nil
  then show ?case by simp
next
  case (Cons b bs)
  have "0 \<le> fadd s b"
    unfolding fadd_def using Cons.prems by (intro fround_nonneg) simp
  then show ?case using Cons by simp
qed

lemma bonuses_nonneg:
  "\<forall>b \<in> set (bonuses title_len content_len n_headings n_paragraphs density). 0 \<le> b"
  by (auto simp: bonuses_def intro!: fround_nonneg)

lemma fold_bonus:
  "foldl fadd s ((if b then [x] else []) @ rest) = foldl fadd (if b then fadd s x else s) rest"
  by simp

lemma fold_content_tiers:
  "foldl fadd s ((if 500 < (n::nat) then [x] else [])
       @ (if 200 < n \<and> n \<le> 500 then [y] else [])
       @ (if 100 < n \<and> n \<le> 200 then [z] else []) @ rest) =
   foldl fadd (if 500 < n then fadd s x
               else if 200 < n then fadd s y
               else if 100 < n then fadd s z else s) rest"
  by simp

lemma fold_density_tiers:
  "foldl fadd s ((if k < (d::rat) then [x] else []) @ (if l < d \<and> d \<le> k then [y] else [])) =
   (if k < d then fadd s x else if l < d then fadd s y else s)"
  by auto

lemma formula_accumulates:
  "quality_formula title_len content_len n_headings n_paragraphs density =
     min 1
       (let score = 0;
            score = (if 10 < title_len then fadd score (fround (2 / 10)) else score);
            score = (if 500 < content_len then fadd score (fround (3 / 10))
                     else if 200 < content_len then fadd score (fround (2 / 10))
                     else if 100 < content_len then fadd score (fround (1 / 10))
                     else score);
            score = (if 1 \<le> n_headings then fadd score (fround (2 / 10)) else score);
            score = (if 1 \<le> n_paragraphs then fadd score (fround (2 / 10)) else score);
            score = (if 3 < n_paragraphs then fadd score (fround (1 / 10)) else score)
        in if fround (1 / 10) < density then fadd score (fround (1 / 10))
           else if fround (5 / 100) < density then fadd score (fround (5 / 100))
           else score)"
  unfolding quality_formula_def bonuses_def Let_def
  apply (subst fold_bonus)
  apply (subst fold_content_tiers)
  apply (subst fold_bonus)
  apply (subst fold_bonus)
  apply (subst fold_bonus)
  apply (subst fold_density_tiers)
  apply (rule refl)
  done

lemma score_eq_formula:
  "0 < html_length \<Longrightarrow>
   calculate_quality_score c html_length =
     quality_formula (length (title c)) (length (main_content c)) (length (headings c))
       (length (paragraphs c)) (true_divide (length (main_content c)) html_length)"
proof -
  assume h: "0 < html_length"
  have t: "(title c \<noteq> [] \<and> 10 < length (title c)) = (10 < length (title c))"
    by auto
  have n: "(headings c \<noteq> []) = (1 \<le> length (headings c))"
    "(paragraphs c \<noteq> []) = (1 \<le> length (paragraphs c))"
    by (simp_all add: Suc_le_eq)
  show ?thesis
    unfolding formula_accumulates calculate_quality_score_def t n
    using h by (simp only: if_True Let_def)
qed

lemma score_no_html:
  "calculate_quality_score c 0 =
     quality_formula (length (title c)) (length (main_content c)) (length (headings c))
       (length (paragraphs c)) 0"
proof -
  have "0 < fround (5 / 100)" "fround (5 / 100) \<le> fround (1 / 10)"
    by code_simp+
  then have z: "(fround (1 / 10) < 0) = False" "(fround (5 / 100) < 0) = False"
    by simp_all
  have t: "(title c \<noteq> [] \<and> 10 < length (title c)) = (10 < length (title c))"
    by auto
  have n: "(headings c \<noteq> []) = (1 \<le> length (headings c))"
    "(paragraphs c \<noteq> []) = (1 \<le> length (paragraphs c))"
    by (simp_all add: Suc_le_eq)
  have l: "((0::nat) < 0) = False" by simp
  show ?thesis
    unfolding formula_accumulates calculate_quality_score_def t n
    by (simp only: z l if_False Let_def)
qed

lemma score_bounds:
  "0 \<le> calculate_quality_score c html_length \<and> calculate_quality_score c html_length \<le> 1"
proof (cases "0 < html_length")
  case True
  show ?thesis
    unfolding score_eq_formula [OF True] quality_formula_def
    using foldl_fadd_nonneg [OF _ bonuses_nonneg, of 0] by simp
next
  case False
  then have "html_length = 0" by simp
  then show ?thesis
    unfolding \<open>html_length = 0\<close> score_no_html quality_formula_def
    using foldl_fadd_nonneg [OF _ bonuses_nonneg, of 0] by simp
qed

lemma float_constants:
  "fround (1 / 10) = 3602879701896397 / 36028797018963968"
  "fround (1 / 5) = 3602879701896397 / 18014398509481984"
  "fround (1 / 20) = 3602879701896397 / 72057594037927936"
  "fround (3 / 200) = 1080863910568919 / 72057594037927936"
  "fadd 0 (3602879701896397 / 18014398509481984) = 3602879701896397 / 18014398509481984"
  "fadd (3602879701896397 / 18014398509481984) (3602879701896397 / 36028797018963968)
     = 5404319552844596 / 18014398509481984"
  by code_simp+

lemma titled_content_score:
  "calculate_quality_score titled_content 10000 = 5404319552844596 / 18014398509481984"
proof -
  have r: "true_divide 150 10000 = fround (3 / 200)"
    by (simp add: true_divide_def)
  show ?thesis
    by (simp add: calculate_quality_score_def titled_content_def Let_def r float_constants)
qed

text \<open>
  Claim C7 as stated fails when the formula is read as a sum of decimal numbers: for a
  title of 13 characters and a main content of 150 characters in a page of 10000
  characters the bonuses are 0.2 and 0.1, and the score is the float next above 0.3.
\<close>

theorem float_sum_counterexample:
  "calculate_quality_score titled_content 10000 = 5404319552844596 / 18014398509481984
   \<and> decimal_formula (length (title titled_content)) (length (main_content titled_content))
        (length (headings titled_content)) (length (paragraphs titled_content))
        (150 / 10000) = 3 / 10
   \<and> calculate_quality_score titled_content 10000
        \<noteq> decimal_formula (length (title titled_content)) (length (main_content titled_content))
            (length (headings titled_content)) (length (paragraphs titled_content))
            (150 / 10000)"
proof -
  have d: "decimal_formula (length (title titled_content)) (length (main_content titled_content))
        (length (headings titled_content)) (length (paragraphs titled_content))
        (150 / 10000) = 3 / 10"
    by (simp add: decimal_formula_def titled_content_def)
  show ?thesis
    unfolding d titled_content_score by simp
qed

text \<open>
  Claim C7, amended.  For a page with raw HTML of positive length the score is the sum,
  in floating-point arithmetic and in the order of the list, of the bonuses that apply,
  capped at 1: the bonus for the title, one bonus for the tier of the main-content
  length, the bonuses for a heading, for a paragraph and for more than three paragraphs,
  and one bonus for the tier of the quotient of main-content length and HTML length.
  For an empty HTML text the quotient is not formed and its bonus is left out.  In every
  case the score lies between 0 and 1.
\<close>

theorem quality_score_formula:
  "(0 < html_length \<longrightarrow>
      calculate_quality_score c html_length =
        quality_formula (length (title c)) (length (main_content c)) (length (headings c))
          (length (paragraphs c)) (true_divide (length (main_content c)) html_length))
   \<and> calculate_quality_score c 0 =
        quality_formula (length (title c)) (length (main_content c)) (length (headings c))
          (length (paragraphs c)) 0
   \<and> 0 \<le> calculate_quality_score c html_length
   \<and> calculate_quality_score c html_length \<le> 1"
  using score_eq_formula [of html_length c] score_no_html [of c] score_bounds [of c html_length]
  by blast

theorem quality_score_formula_witness:
  "(0::nat) < 10000
   \<and> quality_formula 13 150 0 0 (true_divide 150 10000) = 5404319552844596 / 18014398509481984
   \<and> 0 \<le> calculate_quality_score titled_content 10000
   \<and> calculate_quality_score titled_content 10000 \<le> 1"
proof -
  have l: "length (title titled_content) = 13" "length (main_content titled_content) = 150"
    "length (headings titled_content) = 0" "length (paragraphs titled_content) = 0"
    by (simp_all add: titled_content_def)
  from quality_score_formula [of 10000 titled_content] show ?thesis
    by (simp add: l titled_content_score)
qed

section \<open>The round-based crawl\<close>

lemma scrape_single_page_url:
  "scrape_single_page E u = Inr pg \<Longrightarrow> p_url pg = u"
  by (auto simp: scrape_single_page_def extract_page_def Let_def
           split: outcome.splits if_splits)

lemma build_tasks_props:
  "build_tasks max_pages n us vis = (ts, vis') \<Longrightarrow>
     vis' = vis \<union> set ts \<and> distinct ts \<and> set ts \<inter> vis = {} \<and> set ts \<subseteq> set us"
proof (induction us arbitrary: vis ts vis')
  case Nil
  then show ?case by simp
next
  case (Cons u us)
  show ?case
  proof (cases "u \<notin> vis \<and> int n < max_pages")
    case True
    obtain ts0 vis0 where r: "build_tasks max_pages n us (insert u vis) = (ts0, vis0)"
      by (cases "build_tasks max_pages n us (insert u vis)")
    from Cons.prems True r have e: "ts = u # ts0" "vis' = vis0" by auto
    from Cons.IH [OF r] show ?thesis using e True by auto
  next
    case False
    with Cons.prems have "build_tasks max_pages n us vis = (ts, vis')" by auto
    from Cons.IH [OF this] show ?thesis by auto
  qed
qed

lemma handle_results_fields:
  "scraped_pages (handle_results base_url collect rs st) = scraped_pages st @ successes rs"
  "visited (handle_results base_url collect rs st) = visited st"
  "urls_to_visit (handle_results base_url collect rs st) =
     urls_to_visit st @
       (if collect then concat (map (next_links base_url (visited st)) (successes rs)) else [])"
  by (induction base_url collect rs st rule: handle_results.induct) auto

lemma successes_map:
  "map p_url (successes (map (scrape_single_page E) ts)) =
     filter (\<lambda>u. \<exists>pg. scrape_single_page E u = Inr pg) ts"
proof (induction ts)
  case Nil
  then show ?case by simp
next
  case (Cons u ts)
  then show ?case
    by (cases "scrape_single_page E u") (auto dest: scrape_single_page_url)
qed

lemma successes_set:
  "set (successes (map (scrape_single_page E) ts)) =
     {pg. \<exists>u \<in> set ts. scrape_single_page E u = Inr pg}"
proof (induction ts)
  case Nil
  then show ?case by simp
next
  case (Cons u ts)
  then show ?case
    by (cases "scrape_single_page E u") auto
qed

lemma run_round_fields:
  assumes "build_tasks max_pages (length (scraped_pages st)) (urls_to_visit st) (visited st) = (ts, vis)"
  shows "scraped_pages (run_round E base_url depth max_pages inc d st) =
           scraped_pages st @ successes (map (scrape_single_page E) ts)"
    and "visited (run_round E base_url depth max_pages inc d st) = visited st \<union> set ts"
    and "urls_to_visit (run_round E base_url depth max_pages inc d st) =
           (if int d < depth - 1 \<and> inc
            then concat (map (next_links base_url (visited st \<union> set ts))
                           (successes (map (scrape_single_page E) ts)))
            else [])"
  using assms build_tasks_props [OF assms]
  by (simp_all add: run_round_def handle_results_fields)

lemma run_round_inv:
  assumes inv: "crawl_inv E st"
  shows "crawl_inv E (run_round E base_url depth max_pages inc d st)"
proof -
  obtain ts vis where bt:
    "build_tasks max_pages (length (scraped_pages st)) (urls_to_visit st) (visited st) = (ts, vis)"
    by (cases "build_tasks max_pages (length (scraped_pages st)) (urls_to_visit st) (visited st)")
  note f = run_round_fields [OF bt, of E base_url depth inc d]
  note p = build_tasks_props [OF bt]
  let ?S = "successes (map (scrape_single_page E) ts)"
  have a: "\<forall>pg \<in> set ?S. p_url pg \<in> set ts \<and> scrape_single_page E (p_url pg) = Inr pg"
    by (auto simp: successes_set dest: scrape_single_page_url)
  have d1: "distinct (map p_url ?S)"
    using p by (simp add: successes_map)
  have d2: "set (map p_url (scraped_pages st)) \<inter> set (map p_url ?S) = {}"
  proof -
    have "set (map p_url (scraped_pages st)) \<subseteq> visited st"
      using inv by (auto simp: crawl_inv_def)
    moreover have "set (map p_url ?S) \<subseteq> set ts" using a by auto
    ultimately show ?thesis using p by blast
  qed
  show ?thesis
    unfolding crawl_inv_def f
  proof (intro conjI ballI allI impI)
    fix pg assume "pg \<in> set (scraped_pages st @ ?S)"
    then show "p_url pg \<in> visited st \<union> set ts"
      using inv a by (auto simp: crawl_inv_def)
  next
    fix pg assume "pg \<in> set (scraped_pages st @ ?S)"
    then show "scrape_single_page E (p_url pg) = Inr pg"
      using inv a by (auto simp: crawl_inv_def)
  next
    fix u pg assume "u \<in> visited st \<union> set ts" "scrape_single_page E u = Inr pg"
    then show "pg \<in> set (scraped_pages st @ ?S)"
      using inv by (auto simp: crawl_inv_def successes_set)
  next
    show "distinct (map p_url (scraped_pages st @ ?S))"
      using inv d1 d2 by (simp add: crawl_inv_def)
  qed
qed

lemma crawl_loop_inv:
  "crawl_inv E st \<Longrightarrow> crawl_inv E (crawl_loop E base_url depth max_pages inc ds st)"
  by (induction ds arbitrary: st) (auto intro: run_round_inv)

lemma crawl_inv_holds: "crawl_inv E (crawl E url depth max_pages inc)"
  unfolding crawl_def by (rule crawl_loop_inv) (simp add: crawl_inv_def)

lemma crawl_loop_empty:
  "urls_to_visit st = [] \<Longrightarrow> crawl_loop E base_url depth max_pages inc ds st = st"
  by (cases ds) auto

lemma not_found_single:
  assumes "http_get E url = Returned resp" "status resp = 404"
  shows "scrape_single_page E url = Inl \<lparr>pe_error = ''HTTP 404'', pe_url = url\<rparr>"
proof -
  have "str_nat 404 = ''404''" by code_simp
  then show ?thesis using assms by (simp add: scrape_single_page_def)
qed

lemma not_found_crawl:
  assumes "0 < depth" "0 < max_pages" "http_get E url = Returned resp" "status resp = 404"
  shows "crawl E url depth max_pages inc = \<lparr>scraped_pages = [], visited = {url}, urls_to_visit = []\<rparr>"
proof -
  obtain k where k: "nat depth = Suc k" using assms(1) by (cases "nat depth") auto
  have up: "[0 ..< nat depth] = 0 # [1 ..< nat depth]"
    using k by (simp add: upt_rec)
  let ?st0 = "\<lparr>scraped_pages = [], visited = {}, urls_to_visit = [url]\<rparr>"
  have r: "run_round E url depth max_pages inc 0 ?st0
             = \<lparr>scraped_pages = [], visited = {url}, urls_to_visit = []\<rparr>"
    using assms not_found_single [OF assms(3,4)] by (simp add: run_round_def)
  show ?thesis
    unfolding crawl_def up using assms(2) r by (simp add: crawl_loop_empty)
qed

text \<open>
  Claim C1, at a failing input.  With \<open>depth = 2\<close> and \<open>max_pages = 2\<close> on a site whose
  home page links to three pages, the second round starts with one page collected,
  dispatches all three URLs of the frontier and collects every one of them: the job ends
  with four pages.
\<close>

theorem scrape_website_exceeds_max_pages:
  "j_pages_scraped (scrape_website site_env ''http://s.io'' 2 2) = 4
   \<and> j_max_pages (scrape_website site_env ''http://s.io'' 2 2) = 2"
  by code_simp

text \<open>
  Claim C3 as stated fails: when the server answers the seed URL with 404, the URL is
  dispatched, its outcome is the error dictionary with message \<open>HTTP 404\<close>, and the page
  list of the job is empty.
\<close>

theorem not_found_dropped_counterexample:
  "visited (crawl gone_env ''http://s.io'' 1 5 True) = {''http://s.io''}
   \<and> scrape_single_page gone_env ''http://s.io''
       = Inl \<lparr>pe_error = ''HTTP 404'', pe_url = ''http://s.io''\<rparr>
   \<and> j_pages (scrape_website gone_env ''http://s.io'' 1 5) = []"
  by code_simp

text \<open>
  Claim C3, amended.  In a crawl job the visited URLs are the dispatched ones.  Every
  page of the job is the page that the one fetch of a dispatched URL returned; every
  dispatched URL whose fetch returned a page has that page in the list; a dispatched URL
  whose fetch returned an error has no entry in the list; no URL has two entries.  When
  the server answers the seed URL with 404, the fetch returns the error \<open>HTTP 404\<close>, the
  seed is the only URL dispatched and the page list is empty.
\<close>

theorem crawl_keeps_pages_only:
  "(\<forall>pg \<in> set (j_pages (scrape_website_async E url depth max_pages inc)).
       p_url pg \<in> visited (crawl E url depth max_pages inc)
       \<and> scrape_single_page E (p_url pg) = Inr pg)
   \<and> (\<forall>u \<in> visited (crawl E url depth max_pages inc).
         (\<forall>pg. scrape_single_page E u = Inr pg \<longrightarrow>
                 pg \<in> set (j_pages (scrape_website_async E url depth max_pages inc)))
         \<and> (\<forall>e. scrape_single_page E u = Inl e \<longrightarrow>
                 u \<notin> p_url ` set (j_pages (scrape_website_async E url depth max_pages inc))))
   \<and> distinct (map p_url (j_pages (scrape_website_async E url depth max_pages inc)))
   \<and> (\<forall>resp. 0 < depth \<and> 0 < max_pages \<and> http_get E url = Returned resp \<and> status resp = 404 \<longrightarrow>
         scrape_single_page E url = Inl \<lparr>pe_error = ''HTTP 404'', pe_url = url\<rparr>
         \<and> visited (crawl E url depth max_pages inc) = {url}
         \<and> j_pages (scrape_website_async E url depth max_pages inc) = [])"
proof -
  let ?st = "crawl E url depth max_pages inc"
  have pages: "j_pages (scrape_website_async E url depth max_pages inc) = scraped_pages ?st"
    by (simp add: scrape_website_async_def Let_def)
  have inv: "crawl_inv E ?st" by (rule crawl_inv_holds)
  have a: "\<forall>pg \<in> set (scraped_pages ?st).
             p_url pg \<in> visited ?st \<and> scrape_single_page E (p_url pg) = Inr pg"
    using inv by (simp add: crawl_inv_def)
  have b: "\<forall>u \<in> visited ?st. \<forall>pg. scrape_single_page E u = Inr pg \<longrightarrow> pg \<in> set (scraped_pages ?st)"
    using inv by (simp add: crawl_inv_def)
  have c: "\<forall>u \<in> visited ?st. \<forall>e. scrape_single_page E u = Inl e \<longrightarrow>
             u \<notin> p_url ` set (scraped_pages ?st)"
  proof (intro ballI allI impI notI)
    fix u e assume "scrape_single_page E u = Inl e" "u \<in> p_url ` set (scraped_pages ?st)"
    then obtain pg where "pg \<in> set (scraped_pages ?st)" "p_url pg = u" by auto
    with a have "scrape_single_page E u = Inr pg" by auto
    with \<open>scrape_single_page E u = Inl e\<close> show False by simp
  qed
  have d: "distinct (map p_url (scraped_pages ?st))"
    using inv by (simp add: crawl_inv_def)
  have e: "\<forall>resp. 0 < depth \<and> 0 < max_pages \<and> http_get E url = Returned resp \<and> status resp = 404 \<longrightarrow>
         scrape_single_page E url = Inl \<lparr>pe_error = ''HTTP 404'', pe_url = url\<rparr>
         \<and> visited ?st = {url} \<and> scraped_pages ?st = []"
    by (auto simp: not_found_crawl not_found_single)
  show ?thesis
    unfolding pages using a b c d e by blast
qed

theorem crawl_keeps_pages_only_witness:
  "set (map p_url (j_pages (scrape_website_async site_env ''http://s.io'' 2 5 True)))
     = visited (crawl site_env ''http://s.io'' 2 5 True)
   \<and> distinct (map p_url (j_pages (scrape_website_async site_env ''http://s.io'' 2 5 True)))
   \<and> visited (crawl gone_env ''http://s.io'' 1 5 False) = {''http://s.io''}
   \<and> j_pages (scrape_website_async gone_env ''http://s.io'' 1 5 False) = []"
proof -
  have s: "\<forall>u \<in> visited (crawl site_env ''http://s.io'' 2 5 True).
             (case scrape_single_page site_env u of Inl e \<Rightarrow> False | Inr pg \<Rightarrow> True)"
    by code_simp
  have g: "(0::int) < 1 \<and> (0::int) < 5
           \<and> http_get gone_env ''http://s.io''
               = Returned \<lparr>status = 404, history = False, response_url = ''http://s.io'',
                           response_text = Returned []\<rparr>
           \<and> status \<lparr>status = 404, history = False, response_url = ''http://s.io'',
                      response_text = Returned []\<rparr> = 404"
    by (simp add: gone_env_def)
  note t1 = crawl_keeps_pages_only [of site_env "''http://s.io''" 2 5 True]
  note t2 = crawl_keeps_pages_only [of gone_env "''http://s.io''" 1 5 False]
  have "set (map p_url (j_pages (scrape_website_async site_env ''http://s.io'' 2 5 True)))
          \<subseteq> visited (crawl site_env ''http://s.io'' 2 5 True)"
    using t1 by auto
  moreover have "visited (crawl site_env ''http://s.io'' 2 5 True)
          \<subseteq> set (map p_url (j_pages (scrape_website_async site_env ''http://s.io'' 2 5 True)))"
  proof
    fix u assume u: "u \<in> visited (crawl site_env ''http://s.io'' 2 5 True)"
    with s obtain pg where pg: "scrape_single_page site_env u = Inr pg"
      by (cases "scrape_single_page site_env u") auto
    with t1 u have "pg \<in> set (j_pages (scrape_website_async site_env ''http://s.io'' 2 5 True))"
      by blast
    moreover have "p_url pg = u" using pg by (rule scrape_single_page_url)
    ultimately show "u \<in> set (map p_url (j_pages (scrape_website_async site_env ''http://s.io'' 2 5 True)))"
      by force
  qed
  ultimately show ?thesis using t1 t2 g by blast
qed

section \<open>Where the frontier comes from\<close>

lemma anchors_loop_queue:
  "anchors_loop E depth first_page current_url vis as links queue = Returned (ls, q) \<Longrightarrow>
   \<exists>new. q = queue @ new
     \<and> (\<not> (1 < depth \<and> first_page) \<longrightarrow> new = [])
     \<and> (\<forall>h \<in> set new. \<exists>ph pc. urlparse (bracket_ok E) h = Some ph
            \<and> urlparse (bracket_ok E) current_url = Some pc \<and> netloc ph = netloc pc)"
proof (induction as arbitrary: links queue)
  case Nil
  then show ?case by simp
next
  case (Cons a as)
  from Cons.prems obtain links' queue' where
    step: "anchors_loop E depth first_page current_url vis as links' queue' = Returned (ls, q)"
    and qq: "queue' = queue \<or>
       (1 < depth \<and> first_page \<and>
        (\<exists>h ph pc. queue' = queue @ [h] \<and> urlparse (bracket_ok E) h = Some ph
            \<and> urlparse (bracket_ok E) current_url = Some pc \<and> netloc ph = netloc pc))"
    by (auto simp: Let_def split: if_splits outcome.splits option.splits)
  from Cons.IH [OF step] obtain new where
    n: "q = queue' @ new" "\<not> (1 < depth \<and> first_page) \<longrightarrow> new = []"
       "\<forall>h \<in> set new. \<exists>ph pc. urlparse (bracket_ok E) h = Some ph
            \<and> urlparse (bracket_ok E) current_url = Some pc \<and> netloc ph = netloc pc"
    by blast
  from qq show ?case
  proof
    assume "queue' = queue"
    with n show ?thesis by blast
  next
    assume "1 < depth \<and> first_page \<and>
        (\<exists>h ph pc. queue' = queue @ [h] \<and> urlparse (bracket_ok E) h = Some ph
            \<and> urlparse (bracket_ok E) current_url = Some pc \<and> netloc ph = netloc pc)"
    then obtain h ph pc where h: "1 < depth" "first_page" "queue' = queue @ [h]"
      "urlparse (bracket_ok E) h = Some ph" "urlparse (bracket_ok E) current_url = Some pc"
      "netloc ph = netloc pc"
      by blast
    have "q = queue @ (h # new)" using n(1) h(3) by simp
    moreover have "\<forall>k \<in> set (h # new). \<exists>ph pc. urlparse (bracket_ok E) k = Some ph
            \<and> urlparse (bracket_ok E) current_url = Some pc \<and> netloc ph = netloc pc"
      using n(3) h(4,5,6) by auto
    ultimately show ?thesis using h(1,2) by blast
  qed
qed

lemma scrape_page_queue:
  assumes "scrape_page E depth current_url st = Returned st2"
  shows "\<exists>new. e_urls_to_scrape st2 = e_urls_to_scrape st @ new
     \<and> (e_scraped_pages st \<noteq> [] \<or> depth \<le> 1 \<longrightarrow> new = [])
     \<and> (\<forall>h \<in> set new. \<exists>ph pc. urlparse (bracket_ok E) h = Some ph
            \<and> urlparse (bracket_ok E) current_url = Some pc \<and> netloc ph = netloc pc)"
proof -
  from assms obtain html ls q where
    a: "anchors_loop E depth (e_scraped_pages st = []) current_url (e_visited_urls st)
          (filter (has_attr ''href'') (find_all [''a''] (parse_html E html))) []
          (e_urls_to_scrape st) = Returned (ls, q)"
    and q: "e_urls_to_scrape st2 = q"
    by (auto simp: scrape_page_def Let_def split: outcome.splits)
  from anchors_loop_queue [OF a] q show ?thesis by auto
qed

lemma next_links_sub:
  "u \<in> set (next_links base_url vis pg) \<Longrightarrow>
     startswith u base_url \<and> u \<in> sl_url ` set (p_links pg)"
  by (auto simp: next_links_def)

lemma run_round_frontier:
  "(\<not> int current_depth < depth - 1 \<longrightarrow>
      urls_to_visit (run_round E base_url depth max_pages inc current_depth st) = [])
   \<and> (\<forall>u \<in> set (urls_to_visit (run_round E base_url depth max_pages inc current_depth st)).
        startswith u base_url
        \<and> (\<exists>pg \<in> set (drop (length (scraped_pages st))
                          (scraped_pages (run_round E base_url depth max_pages inc current_depth st))).
              u \<in> sl_url ` set (p_links pg)))"
proof -
  obtain ts vis where bt:
    "build_tasks max_pages (length (scraped_pages st)) (urls_to_visit st) (visited st) = (ts, vis)"
    by (cases "build_tasks max_pages (length (scraped_pages st)) (urls_to_visit st) (visited st)")
  note f = run_round_fields [OF bt, of E base_url depth inc current_depth]
  show ?thesis
    unfolding f using next_links_sub by (auto; blast)
qed

text \<open>
  Claim C6 as stated fails on the round-based crawl: with \<open>depth = 3\<close> the page
  \<open>http://s.io/a\<close>, the second page of the job, is the only one that links to
  \<open>http://s.io/d\<close>, and that URL is the frontier after the second round and ends up
  among the pages of the job.
\<close>

theorem later_page_feeds_frontier_counterexample:
  "urls_to_visit (run_round site_env ''http://s.io'' 3 10 True 1
      (run_round site_env ''http://s.io'' 3 10 True 0 start_state)) = [''http://s.io/d'']
   \<and> map p_url (j_pages (scrape_website site_env ''http://s.io'' 3 10))
       = [''http://s.io'', ''http://s.io/a'', ''http://s.io/b'', ''http://s.io/c'', ''http://s.io/d'']
   \<and> map page_link_urls (j_pages (scrape_website site_env ''http://s.io'' 3 10))
       = [[''http://s.io/a'', ''http://s.io/b'', ''http://s.io/c''], [''http://s.io/d''], [], [], []]"
  by code_simp

text \<open>
  Claim C6, amended.  In the queue crawl of \<open>main.py\<close> a page can only append to the queue,
  it appends nothing unless it is the first page of the job and the depth exceeds 1, and
  what it appends are URLs with the network location of the page itself.  In the
  round-based crawl of \<open>simple_scraper.py\<close> and \<open>test_api.py\<close> the frontier after a round is
  empty unless \<open>current_depth < depth - 1\<close>, and every URL in it starts with the base URL
  and is a link of a page collected in that round, whichever page of the job that is.
\<close>

theorem frontier_sources:
  "(\<forall>st2. scrape_page E depth current_url est = Returned st2 \<longrightarrow>
      (\<exists>new. e_urls_to_scrape st2 = e_urls_to_scrape est @ new
         \<and> (e_scraped_pages est \<noteq> [] \<or> depth \<le> 1 \<longrightarrow> new = [])
         \<and> (\<forall>h \<in> set new. \<exists>ph pc. urlparse (bracket_ok E) h = Some ph
                \<and> urlparse (bracket_ok E) current_url = Some pc \<and> netloc ph = netloc pc)))
   \<and> (\<not> int current_depth < depth - 1 \<longrightarrow>
        urls_to_visit (run_round E base_url depth max_pages inc current_depth st) = [])
   \<and> (\<forall>u \<in> set (urls_to_visit (run_round E base_url depth max_pages inc current_depth st)).
        startswith u base_url
        \<and> (\<exists>pg \<in> set (drop (length (scraped_pages st))
                          (scraped_pages (run_round E base_url depth max_pages inc current_depth st))).
              u \<in> sl_url ` set (p_links pg)))"
  using scrape_page_queue [of E depth current_url est]
    run_round_frontier [of current_depth depth E base_url max_pages inc st]
  by blast

theorem frontier_sources_witness:
  "(\<exists>st2. scrape_page site_env 2 ''http://s.io/b'' after_home = Returned st2
        \<and> e_urls_to_scrape st2 = [''http://s.io/b'', ''http://s.io/c''])
   \<and> urls_to_visit (run_round site_env ''http://s.io'' 2 10 True 1
        (run_round site_env ''http://s.io'' 2 10 True 0 start_state)) = []
   \<and> set (urls_to_visit (run_round site_env ''http://s.io'' 2 10 True 0 start_state))
        \<subseteq> {u. startswith u ''http://s.io''}"
proof -
  have ev: "case scrape_page site_env 2 ''http://s.io/b'' after_home of
              Returned st2 \<Rightarrow> True | Raised e \<Rightarrow> False"
    by code_simp
  then obtain st2 where r: "scrape_page site_env 2 ''http://s.io/b'' after_home = Returned st2"
    by (auto split: outcome.splits)
  have h: "e_scraped_pages after_home \<noteq> []" "e_urls_to_scrape after_home = [''http://s.io/b'', ''http://s.io/c'']"
    by (simp_all add: after_home_def)
  have d: "\<not> int 1 < 2 - 1" by simp
  note t1 = frontier_sources [of site_env 2 "''http://s.io/b''" after_home 1 "''http://s.io''" 10 True
      "run_round site_env ''http://s.io'' 2 10 True 0 start_state"]
  note t2 = frontier_sources [of site_env 2 "''http://s.io/b''" after_home 0 "''http://s.io''" 10 True
      start_state]
  have "e_urls_to_scrape st2 = [''http://s.io/b'', ''http://s.io/c'']"
    using t1 r h by auto
  moreover have "urls_to_visit (run_round site_env ''http://s.io'' 2 10 True 1
        (run_round site_env ''http://s.io'' 2 10 True 0 start_state)) = []"
    using t1 d by simp
  moreover have "set (urls_to_visit (run_round site_env ''http://s.io'' 2 10 True 0 start_state))
        \<subseteq> {u. startswith u ''http://s.io''}"
    using t2 by blast
  ultimately show ?thesis using r by blast
qed

section \<open>scrape\_url: status codes, retries and the bounded main content\<close>

lemma attempt_status:
  assumes "normalize_url (bracket_ok E) url \<notin> visited_urls s"
    and "\<not> should_exclude_url (normalize_url (bracket_ok E) url) (exclude_patterns cfg)"
    and "session_get E (length (requests s)) (normalize_url (bracket_ok E) url) = Returned resp"
    and "status resp \<noteq> 200"
  shows "attempt E cfg s url =
    (Returned (Failure \<lparr>error = status_message (status resp),
         error_url = (if history resp then normalize_url (bracket_ok E) (response_url resp)
                      else normalize_url (bracket_ok E) url),
         error_status_code = Some (status resp)\<rparr>),
     s\<lparr>visited_urls := insert (normalize_url (bracket_ok E) url) (visited_urls s),
       requests := requests s @ [normalize_url (bracket_ok E) url]\<rparr>)"
  using assms by (simp add: attempt_def Let_def)

lemma status_message_cases:
  "status_message 404 = ''Page not found''"
  "status_message 403 = ''Access forbidden''"
  "status_message 500 = ''Server error''"
  "st \<notin> {404, 403, 500} \<Longrightarrow> status_message st = ''HTTP '' @ str_nat st"
  by (simp_all add: status_message_def Let_def)

text \<open>
  Claim C4.  When a URL is fetched (it was not visited and is not excluded) and the
  response has a status other than 200, \<open>scrape_url\<close> returns a failure that carries the
  status code and the message for it, after exactly one request and without sleeping,
  whatever the retry count and the configured number of retries.
\<close>

theorem non_200_is_failure_without_retry:
  assumes "normalize_url (bracket_ok E) url \<notin> visited_urls s"
    and "\<not> should_exclude_url (normalize_url (bracket_ok E) url) (exclude_patterns cfg)"
    and "session_get E (length (requests s)) (normalize_url (bracket_ok E) url) = Returned resp"
    and "status resp \<noteq> 200"
  shows "\<exists>f s'. scrape_url E cfg s url retry_count = (Failure f, s')
     \<and> error_status_code f = Some (status resp)
     \<and> (status resp = 404 \<longrightarrow> error f = ''Page not found'')
     \<and> (status resp = 403 \<longrightarrow> error f = ''Access forbidden'')
     \<and> (status resp = 500 \<longrightarrow> error f = ''Server error'')
     \<and> (status resp \<notin> {404, 403, 500} \<longrightarrow> error f = ''HTTP '' @ str_nat (status resp))
     \<and> requests s' = requests s @ [normalize_url (bracket_ok E) url]
     \<and> sleeps s' = sleeps s"
proof -
  note a = attempt_status [OF assms]
  have "scrape_url E cfg s url retry_count =
    (Failure \<lparr>error = status_message (status resp),
         error_url = (if history resp then normalize_url (bracket_ok E) (response_url resp)
                      else normalize_url (bracket_ok E) url),
         error_status_code = Some (status resp)\<rparr>,
     s\<lparr>visited_urls := insert (normalize_url (bracket_ok E) url) (visited_urls s),
       requests := requests s @ [normalize_url (bracket_ok E) url]\<rparr>)"
    by (subst scrape_url.simps) (simp add: a)
  then show ?thesis
    using status_message_cases by auto
qed

theorem non_200_is_failure_without_retry_witness:
  "\<exists>f s'. scrape_url gone_env retry_config new_scraper ''http://s.io'' 0 = (Failure f, s')
     \<and> error f = ''Page not found'' \<and> error_status_code f = Some 404
     \<and> requests s' = [''http://s.io/''] \<and> sleeps s' = []"
proof -
  have b: "bracket_ok gone_env = any_host"
    by (simp add: gone_env_def site_env_def)
  have "normalize_url any_host ''http://s.io'' = ''http://s.io/''"
    by code_simp
  then have n: "normalize_url (bracket_ok gone_env) ''http://s.io'' = ''http://s.io/''"
    by (simp add: b)
  have h1: "normalize_url (bracket_ok gone_env) ''http://s.io'' \<notin> visited_urls new_scraper"
    by (simp add: new_scraper_def)
  have h2: "\<not> should_exclude_url (normalize_url (bracket_ok gone_env) ''http://s.io'')
              (exclude_patterns retry_config)"
    by (simp add: should_exclude_url_def retry_config_def)
  have h3: "session_get gone_env (length (requests new_scraper))
              (normalize_url (bracket_ok gone_env) ''http://s.io'')
            = Returned \<lparr>status = 404, history = False, response_url = ''http://s.io/'',
                        response_text = Returned []\<rparr>"
    unfolding n by (simp add: gone_env_def)
  have h4: "status \<lparr>status = 404, history = False, response_url = ''http://s.io/'',
                    response_text = Returned []\<rparr> \<noteq> 200"
    by simp
  from non_200_is_failure_without_retry [OF h1 h2 h3 h4, of 0]
  obtain f s' where "scrape_url gone_env retry_config new_scraper ''http://s.io'' 0 = (Failure f, s')"
    "error f = ''Page not found''" "error_status_code f = Some 404"
    "requests s' = requests new_scraper @ [''http://s.io/'']" "sleeps s' = sleeps new_scraper"
    by (auto simp: n)
  then show ?thesis
    by (auto simp: new_scraper_def)
qed

text \<open>
  Claim C5, at a failing input.  Every request times out and \<open>max_retries\<close> is 3.  The
  first attempt marks the URL visited and requests it; the handler sleeps \<open>2 ** 0\<close>
  seconds and calls \<open>scrape_url\<close> again, which finds the URL in \<open>visited_urls\<close> and
  returns \<open>Already visited\<close>: one request in all, and no \<open>Timeout\<close> failure.
\<close>

theorem retry_finds_url_visited:
  "scrape_url timeout_env retry_config new_scraper ''http://s.io'' 0 =
     (Failure \<lparr>error = ''Already visited'', error_url = ''http://s.io'',
               error_status_code = None\<rparr>,
      \<lparr>visited_urls = {''http://s.io/''}, requests = [''http://s.io/''], sleeps = [1]\<rparr>)"
  by code_simp

text \<open>The same in general: a retry never reaches the network.\<close>

lemma attempt_visited:
  "normalize_url (bracket_ok E) url \<in> visited_urls s \<Longrightarrow>
   attempt E cfg s url =
     (Returned (Failure \<lparr>error = ''Already visited'', error_url = url,
                          error_status_code = None\<rparr>), s)"
  by (simp add: attempt_def Let_def)

lemma attempt_raised:
  "attempt E cfg s url = (Raised e, s1) \<Longrightarrow>
   normalize_url (bracket_ok E) url \<in> visited_urls s1
   \<and> requests s1 = requests s @ [normalize_url (bracket_ok E) url]
   \<and> sleeps s1 = sleeps s"
  by (auto simp: attempt_def Let_def build_result_def split: if_splits outcome.splits prod.splits option.splits)

lemma retry_never_fetches:
  assumes "attempt E cfg s url = (Raised e, s1)"
    and "e = TimeoutError m \<or> e = ClientError m"
    and "int retry_count < max_retries cfg"
  shows "scrape_url E cfg s url retry_count =
     (Failure \<lparr>error = ''Already visited'', error_url = url, error_status_code = None\<rparr>,
      s1\<lparr>sleeps := sleeps s1 @ [2 ^ retry_count]\<rparr>)"
proof -
  from attempt_raised [OF assms(1)]
  have v: "normalize_url (bracket_ok E) url \<in> visited_urls (s1\<lparr>sleeps := sleeps s1 @ [2 ^ retry_count]\<rparr>)"
    by simp
  have r: "scrape_url E cfg (s1\<lparr>sleeps := sleeps s1 @ [2 ^ retry_count]\<rparr>) url (Suc retry_count) =
     (Failure \<lparr>error = ''Already visited'', error_url = url, error_status_code = None\<rparr>,
      s1\<lparr>sleeps := sleeps s1 @ [2 ^ retry_count]\<rparr>)"
    by (subst scrape_url.simps) (simp add: attempt_visited [OF v])
  show ?thesis
    using assms(2,3) by (subst scrape_url.simps) (auto simp: assms(1) r)
qed





end
